theory Spec2Isabelle
  imports Complex_Main "HOL-Library.Sublist" "HOL-Library.Log_Nat"
begin

section \<open>JavaScript strings and numbers\<close>

text \<open>
  The pages under \<^verbatim>\<open>src/frontend/src/pages\<close> are React components. Their state is
  modelled by records, their handlers by functions on those records, and the built-ins
  they call by the definitions of this section.

  Strings are lists of characters and are taken to be ASCII: \<open>trim\<close> removes the ASCII
  white space and \<open>toLowerCase\<close> maps \<open>A\<close>..\<open>Z\<close> only. The number that \<open>parseFloat\<close>
  reads from the amount field is \<open>NaN\<close> or an exact rational: there the rounding of
  doubles is not modelled, and the literal \<^verbatim>\<open>Infinity\<close>, which a number input cannot
  hold, is read as \<open>NaN\<close>. The arithmetic of the dashboard's progress bar is modelled in
  doubles, with the definitions at the end of this section.
\<close>

definition isWhiteSpace :: "char \<Rightarrow> bool" where
  "isWhiteSpace c = (c \<in> set [CHR 0x09, CHR 0x0A, CHR 0x0B, CHR 0x0C, CHR 0x0D, CHR '' ''])"

definition trimStart :: "string \<Rightarrow> string" where
  "trimStart s = dropWhile isWhiteSpace s"

definition trim :: "string \<Rightarrow> string" where
  "trim s = rev (trimStart (rev (trimStart s)))"

definition toLowerChar :: "char \<Rightarrow> char" where
  "toLowerChar c =
     (case map_of (zip ''ABCDEFGHIJKLMNOPQRSTUVWXYZ'' ''abcdefghijklmnopqrstuvwxyz'') c of
        Some l \<Rightarrow> l
      | None \<Rightarrow> c)"

definition toLowerCase :: "string \<Rightarrow> string" where
  "toLowerCase s = map toLowerChar s"

text \<open>
  \<^verbatim>\<open>s.includes(q)\<close>: \<open>q\<close> occurs in \<open>s\<close> at some position (\<open>includes\<close> is a
  keyword of Isabelle, hence the suffix).
\<close>

fun includes_str :: "string \<Rightarrow> string \<Rightarrow> bool" where
  "includes_str [] q = (q = [])"
| "includes_str (c # s) q = (prefix q (c # s) \<or> includes_str s q)"

datatype jsnum = NaN | Num rat

definition isNaN :: "jsnum \<Rightarrow> bool" where
  "isNaN x = (case x of NaN \<Rightarrow> True | Num _ \<Rightarrow> False)"

text \<open>\<^verbatim>\<open>x < k\<close> and \<^verbatim>\<open>x >= k\<close> for a numeric constant \<open>k\<close>: both are false on \<open>NaN\<close>.\<close>

definition js_lt :: "jsnum \<Rightarrow> rat \<Rightarrow> bool" where
  "js_lt x k = (case x of NaN \<Rightarrow> False | Num a \<Rightarrow> a < k)"

definition js_ge :: "jsnum \<Rightarrow> rat \<Rightarrow> bool" where
  "js_ge x k = (case x of NaN \<Rightarrow> False | Num a \<Rightarrow> k \<le> a)"

definition isDigit :: "char \<Rightarrow> bool" where
  "isDigit c = (c \<in> set ''0123456789'')"

definition digitsVal :: "string \<Rightarrow> nat" where
  "digitsVal ds = foldl (\<lambda>n c. 10 * n + (of_char c - 48)) 0 ds"

text \<open>An optional sign in front of a string: the sign read and the rest.\<close>

definition signOf :: "string \<Rightarrow> bool \<times> string" where
  "signOf s =
     (case s of
        [] \<Rightarrow> (False, [])
      | c # r \<Rightarrow> if c = CHR ''-'' then (True, r) else if c = CHR ''+'' then (False, r)
                 else (False, s))"

text \<open>The exponent part \<^verbatim>\<open>e[+-]digits\<close> at the front of a string, 0 when there is none.\<close>

definition exponentOf :: "string \<Rightarrow> int" where
  "exponentOf s =
     (case s of
        [] \<Rightarrow> 0
      | c # r \<Rightarrow>
          if c = CHR ''e'' \<or> c = CHR ''E'' then
            (let (neg, d) = signOf r; ds = takeWhile isDigit d
             in if ds = [] then 0
                else if neg then - int (digitsVal ds) else int (digitsVal ds))
          else 0)"

definition scale10 :: "rat \<Rightarrow> int \<Rightarrow> rat" where
  "scale10 m e = (if 0 \<le> e then m * 10 ^ nat e else m / 10 ^ nat (- e))"

text \<open>
  \<^verbatim>\<open>parseFloat(s)\<close>: skips leading white space and reads the longest prefix that is a
  decimal literal (sign, digits, fraction, exponent); \<open>NaN\<close> when there is none.
\<close>

definition parseFloat :: "string \<Rightarrow> jsnum" where
  "parseFloat s =
     (let (neg, u) = signOf (trimStart s);
          ip = takeWhile isDigit u;
          r1 = dropWhile isDigit u;
          hasDot = (case r1 of [] \<Rightarrow> False | c # _ \<Rightarrow> c = CHR ''.'');
          fp = (if hasDot then takeWhile isDigit (tl r1) else []);
          r2 = (if hasDot then dropWhile isDigit (tl r1) else r1)
      in if ip = [] \<and> fp = [] then NaN
         else
           (let m = scale10 (of_nat (digitsVal (ip @ fp)) / 10 ^ length fp) (exponentOf r2)
            in Num (if neg then - m else m)))"

text \<open>
  Doubles. A finite double is the rational it stands for; \<open>NaN\<close> does not arise in the
  arithmetic modelled with them. \<open>round_double\<close> rounds a rational to the nearest number
  with a significand of 53 bits and an exponent of at least -1022 (so the subnormal
  numbers are multiples of \<open>2 powi -1074\<close>), a tie going to the even significand, and
  \<open>to_double\<close> is infinite where the rounded value reaches \<open>2 ^ 1024\<close>.
\<close>

definition round_half_even :: "rat \<Rightarrow> int" where
  "round_half_even q =
     (let f = \<lfloor>q\<rfloor>; r = q - of_int f
      in if r < 1 / 2 then f else if 1 / 2 < r then f + 1 else if even f then f else f + 1)"

text \<open>The exponent \<open>e\<close> of a rational other than 0: \<open>2 powi e \<le> \<bar>x\<bar> < 2 powi (e + 1)\<close>.\<close>

definition exponent2 :: "rat \<Rightarrow> int" where
  "exponent2 x =
     (let (n, d) = quotient_of \<bar>x\<bar>; e = bitlen n - bitlen d
      in if 2 powi e \<le> \<bar>x\<bar> then e else e - 1)"

definition round_double :: "rat \<Rightarrow> rat" where
  "round_double x =
     (if x = 0 then 0
      else (let u = 2 powi (max (exponent2 x) (- 1022) - 52)
            in of_int (round_half_even (x / u)) * u))"

datatype double = Dbl rat | PosInf | NegInf

definition to_double :: "rat \<Rightarrow> double" where
  "to_double x =
     (let r = round_double x
      in if 2 ^ 1024 \<le> r then PosInf else if r \<le> - (2 ^ 1024) then NegInf else Dbl r)"

text \<open>
  \<^verbatim>\<open>x / k\<close> and \<^verbatim>\<open>x * k\<close> for a positive constant \<open>k\<close>, \<^verbatim>\<open>Math.min(x, k)\<close>, and
  the comparisons \<^verbatim>\<open>index < x\<close>, \<^verbatim>\<open>x <= k\<close> and \<^verbatim>\<open>x >= k\<close>.
\<close>

definition js_div :: "double \<Rightarrow> rat \<Rightarrow> double" where
  "js_div x k = (case x of Dbl a \<Rightarrow> to_double (a / k) | PosInf \<Rightarrow> PosInf | NegInf \<Rightarrow> NegInf)"

definition js_mul :: "double \<Rightarrow> rat \<Rightarrow> double" where
  "js_mul x k = (case x of Dbl a \<Rightarrow> to_double (a * k) | PosInf \<Rightarrow> PosInf | NegInf \<Rightarrow> NegInf)"

definition Math_min :: "double \<Rightarrow> rat \<Rightarrow> double" where
  "Math_min x k = (case x of Dbl a \<Rightarrow> Dbl (min a k) | PosInf \<Rightarrow> Dbl k | NegInf \<Rightarrow> NegInf)"

definition index_lt :: "nat \<Rightarrow> double \<Rightarrow> bool" where
  "index_lt i x = (case x of Dbl a \<Rightarrow> of_nat i < a | PosInf \<Rightarrow> True | NegInf \<Rightarrow> False)"

definition dbl_le :: "double \<Rightarrow> rat \<Rightarrow> bool" where
  "dbl_le x k = (case x of Dbl a \<Rightarrow> a \<le> k | PosInf \<Rightarrow> False | NegInf \<Rightarrow> True)"

definition dbl_ge :: "double \<Rightarrow> rat \<Rightarrow> bool" where
  "dbl_ge x k = (case x of Dbl a \<Rightarrow> k \<le> a | PosInf \<Rightarrow> True | NegInf \<Rightarrow> False)"

section \<open>Data model\<close>

text \<open>
  A customer as the pages read it from the API (\<open>customer.id\<close>, \<open>.name\<close>, \<open>.phone\<close>,
  \<open>.email\<close>, \<open>.punches\<close>, \<open>.total_spent\<close>); \<open>phone\<close> and \<open>email\<close> may be \<open>null\<close>.
  The field \<open>id\<close> is named \<open>c_id\<close>.
\<close>

record customer =
  c_id :: nat
  name :: string
  phone :: "string option"
  email :: "string option"
  punches :: int
  total_spent :: rat

text \<open>The reward tiers: 10, 15 and 20 punches for 15, 20 and 25 percent off.\<close>

record tier =
  threshold :: int
  discount_percent :: int

definition tiers :: "tier list" where
  "tiers = [\<lparr>threshold = 10, discount_percent = 15\<rparr>,
            \<lparr>threshold = 15, discount_percent = 20\<rparr>,
            \<lparr>threshold = 20, discount_percent = 25\<rparr>]"

section \<open>CustomerDashboard.jsx\<close>

text \<open>
  \<^verbatim>\<open>const punches = customer.punches || 0\<close>: the customer's count as the double that
  the page holds, and 0 in place of a zero.
\<close>

definition dashboard_punches :: "customer \<Rightarrow> double" where
  "dashboard_punches c =
     (let v = to_double (of_int (punches c)) in if v = Dbl 0 then Dbl 0 else v)"

text \<open>\<^verbatim>\<open>const progressPercent = Math.min((punches / 20) * 100, 100)\<close>.\<close>

definition progressPercent :: "double \<Rightarrow> double" where
  "progressPercent punches_d = Math_min (js_mul (js_div punches_d 20) 100) 100"

text \<open>
  The punch grid: \<^verbatim>\<open>[...Array(20)].map((_, index) => ...)\<close> with
  \<^verbatim>\<open>isFilled = index < punches\<close> and the milestones at 9, 14 and 19.
\<close>

record punch_circle =
  isFilled :: bool
  isMilestone :: bool

definition punch_grid :: "double \<Rightarrow> punch_circle list" where
  "punch_grid punches_d =
     map (\<lambda>index. \<lparr>isFilled = index_lt index punches_d,
                    isMilestone = (index = 9 \<or> index = 14 \<or> index = 19)\<rparr>) [0..<20]"

text \<open>
  The three tier cards, in the order of the page: a card is \<open>available\<close> with the badge
  \<open>Ready!\<close> when \<^verbatim>\<open>punches >= t\<close>, and \<open>locked\<close> with the badge \<open>t - punches more\<close>
  otherwise.
\<close>

datatype badge = Ready | More int

record tier_card =
  card_threshold :: int
  card_title :: string
  card_available :: bool
  card_badge :: badge

definition tier_card :: "int \<Rightarrow> string \<Rightarrow> int \<Rightarrow> tier_card" where
  "tier_card t title p =
     \<lparr>card_threshold = t, card_title = title, card_available = (t \<le> p),
      card_badge = (if t \<le> p then Ready else More (t - p))\<rparr>"

definition tier_cards :: "int \<Rightarrow> tier_card list" where
  "tier_cards p =
     [tier_card 10 ''15% Off'' p, tier_card 15 ''20% Off'' p, tier_card 20 ''25% Off'' p]"

text \<open>
  The \<open>next_reward\<close> object of the API response, as the page reads it: \<open>max_reached\<close>, or
  a tier with \<open>punches_needed\<close>. The page shows \<open>punches_needed\<close> and \<open>discount\<close> when
  \<^verbatim>\<open>nextReward && !nextReward.max_reached\<close>, the trophy when
  \<^verbatim>\<open>nextReward?.max_reached\<close>, and nothing when \<open>nextReward\<close> is \<open>null\<close>.
\<close>

datatype next_reward = MaxReached | NextTier tier int

datatype reward_info = NoRewardInfo | NextRewardInfo int int | MaxRewardInfo

definition next_reward_info :: "next_reward option \<Rightarrow> reward_info" where
  "next_reward_info nr =
     (case nr of
        None \<Rightarrow> NoRewardInfo
      | Some MaxReached \<Rightarrow> MaxRewardInfo
      | Some (NextTier t n) \<Rightarrow> NextRewardInfo n (discount_percent t))"

section \<open>LandingPage.jsx\<close>

text \<open>
  The signup form's state \<open>signupData\<close> (its fields \<open>name\<close>, \<open>phone\<close> and \<open>email\<close>
  carry the prefix \<open>su_\<close>), the body of the POST to \<^verbatim>\<open>/customers/signup\<close>, and what
  \<open>handleSignup\<close> does: an error toast and \<^verbatim>\<open>return\<close>, or the POST. An empty string is
  falsy, so \<^verbatim>\<open>x.trim() || null\<close> is \<open>null\<close> on white space.
\<close>

record signupData =
  su_name :: string
  su_phone :: string
  su_email :: string

record signup_body =
  body_name :: string
  body_phone :: "string option"
  body_email :: "string option"

datatype signup_outcome = SignupToastError string | SignupPost signup_body

definition or_null :: "string \<Rightarrow> string option" where
  "or_null s = (if s = [] then None else Some s)"

definition handleSignup :: "signupData \<Rightarrow> signup_outcome" where
  "handleSignup d =
     (if trim (su_name d) = [] then SignupToastError ''Please enter your name''
      else if trim (su_phone d) = [] \<and> trim (su_email d) = []
        then SignupToastError ''Please enter phone number or email''
      else SignupPost \<lparr>body_name = trim (su_name d),
                       body_phone = or_null (trim (su_phone d)),
                       body_email = or_null (trim (su_email d))\<rparr>)"

definition signup_posts :: "signup_outcome \<Rightarrow> signup_body list" where
  "signup_posts out = (case out of SignupToastError _ \<Rightarrow> [] | SignupPost b \<Rightarrow> [b])"

section \<open>AdminPanel.jsx\<close>

text \<open>
  The requests the panel sends, and what it does that can be seen from outside, in order:
  a request sent, the answer to a login request, a toast, the logout.
\<close>

datatype request =
    LoginReq string
  | FetchCustomersReq
  | LookupReq string
  | AddPunchReq nat rat
  | RedeemRewardReq nat int

datatype login_response = LoginSuccess | LoginNoSuccess | LoginFailed

datatype obs = Issued request | LoginAnswer login_response | Toast string | LoggedOut

text \<open>
  The component's state (the \<open>useState\<close> hooks) and \<open>trace\<close>, the effects so far, oldest
  first.
\<close>

record admin_state =
  isAuthenticated :: bool
  pin :: string
  customers :: "customer list"
  searchQuery :: string
  selectedCustomer :: "customer option"
  transactionAmount :: string
  isLoading :: bool
  showAddPunchDialog :: bool
  showRedeemDialog :: bool
  trace :: "obs list"

definition initial_state :: admin_state where
  "initial_state =
     \<lparr>isAuthenticated = False, pin = [], customers = [], searchQuery = [],
      selectedCustomer = None, transactionAmount = [], isLoading = False,
      showAddPunchDialog = False, showRedeemDialog = False, trace = []\<rparr>"

definition emit :: "obs \<Rightarrow> admin_state \<Rightarrow> admin_state" where
  "emit e s = s\<lparr>trace := trace s @ [e]\<rparr>"

definition handlePinInput :: "string \<Rightarrow> admin_state \<Rightarrow> admin_state" where
  "handlePinInput digit s = (if length (pin s) < 4 then s\<lparr>pin := pin s @ digit\<rparr> else s)"

text \<open>\<^verbatim>\<open>prev.slice(0, -1)\<close>.\<close>

definition handlePinDelete :: "admin_state \<Rightarrow> admin_state" where
  "handlePinDelete s = s\<lparr>pin := butlast (pin s)\<rparr>"

definition fetchCustomers :: "admin_state \<Rightarrow> admin_state" where
  "fetchCustomers s = emit (Issued FetchCustomersReq) s"

text \<open>The answer to \<open>fetchCustomers\<close>: the list, or the failure of the request.\<close>

definition fetchCustomers_answer :: "customer list option \<Rightarrow> admin_state \<Rightarrow> admin_state" where
  "fetchCustomers_answer r s =
     (case r of
        Some cs \<Rightarrow> s\<lparr>customers := cs\<rparr>
      | None \<Rightarrow> emit (Toast ''Failed to load customers'') s)"

text \<open>\<open>handlePinSubmit\<close> up to its \<open>await\<close>, and from the answer on.\<close>

definition handlePinSubmit :: "admin_state \<Rightarrow> admin_state" where
  "handlePinSubmit s =
     (if length (pin s) \<noteq> 4 then emit (Toast ''Please enter 4-digit PIN'') s
      else emit (Issued (LoginReq (pin s))) s)"

text \<open>
  On \<open>response.data.success\<close> the panel is authenticated, and the effect on
  \<open>isAuthenticated\<close> then calls \<open>fetchCustomers\<close> if the flag has changed; a failed
  request clears the PIN.
\<close>

definition handlePinSubmit_answer :: "login_response \<Rightarrow> admin_state \<Rightarrow> admin_state" where
  "handlePinSubmit_answer r s =
     (case r of
        LoginSuccess \<Rightarrow>
          (let s' = emit (Toast ''Welcome, Admin!'')
                      (emit (LoginAnswer r) (s\<lparr>isAuthenticated := True\<rparr>))
           in if isAuthenticated s then s' else fetchCustomers s')
      | LoginNoSuccess \<Rightarrow> emit (LoginAnswer r) s
      | LoginFailed \<Rightarrow> emit (Toast ''Invalid PIN'') (emit (LoginAnswer r) (s\<lparr>pin := []\<rparr>)))"

definition handleSearch :: "admin_state \<Rightarrow> admin_state" where
  "handleSearch s =
     (if trim (searchQuery s) = [] then fetchCustomers s
      else emit (Issued (LookupReq (trim (searchQuery s)))) s)"

definition handleSearch_answer :: "customer option option \<Rightarrow> admin_state \<Rightarrow> admin_state" where
  "handleSearch_answer r s =
     (case r of
        Some (Some c) \<Rightarrow> s\<lparr>selectedCustomer := Some c\<rparr>
      | Some None \<Rightarrow> s
      | None \<Rightarrow> emit (Toast ''Customer not found'') s)"

text \<open>
  \<open>handleAddPunch\<close> up to its \<open>await\<close>: the two guards, then \<open>setIsLoading(true)\<close> and the
  POST to \<^verbatim>\<open>/admin/add-punch\<close> with the customer's id and the parsed amount.
\<close>

definition handleAddPunch :: "admin_state \<Rightarrow> admin_state" where
  "handleAddPunch s =
     (case selectedCustomer s of
        None \<Rightarrow> emit (Toast ''Please select a customer and enter amount'') s
      | Some c \<Rightarrow>
          if transactionAmount s = []
            then emit (Toast ''Please select a customer and enter amount'') s
          else
            (case parseFloat (transactionAmount s) of
               NaN \<Rightarrow> emit (Toast ''Amount must be at least $10'') s
             | Num amount \<Rightarrow>
                 if amount < 10 then emit (Toast ''Amount must be at least $10'') s
                 else emit (Issued (AddPunchReq (c_id c) amount)) (s\<lparr>isLoading := True\<rparr>)))"

text \<open>
  The answer to an add-punch or redeem request: the updated customer, or the error's
  \<open>detail\<close> when it has one; \<^verbatim>\<open>detail || "Failed to ..."\<close> takes the fixed text also
  for an empty \<open>detail\<close>. The success toasts, which quote the response, are shortened.
\<close>

datatype mutation_response = Updated customer | Failure "string option"

definition handleAddPunch_answer :: "mutation_response \<Rightarrow> admin_state \<Rightarrow> admin_state" where
  "handleAddPunch_answer r s =
     (case r of
        Updated c \<Rightarrow>
          (fetchCustomers
             (emit (Toast ''Added punch(es)'')
                (s\<lparr>selectedCustomer := Some c, transactionAmount := [],
                   showAddPunchDialog := False\<rparr>)))\<lparr>isLoading := False\<rparr>
      | Failure d \<Rightarrow>
          (emit (Toast (case or_null (case d of Some m \<Rightarrow> m | None \<Rightarrow> []) of
                          Some m \<Rightarrow> m
                        | None \<Rightarrow> ''Failed to add punch'')) s)
            \<lparr>isLoading := False\<rparr>)"

definition handleRedeemReward :: "int \<Rightarrow> admin_state \<Rightarrow> admin_state" where
  "handleRedeemReward t s =
     (case selectedCustomer s of
        None \<Rightarrow> s
      | Some c \<Rightarrow> emit (Issued (RedeemRewardReq (c_id c) t)) (s\<lparr>isLoading := True\<rparr>))"

definition handleRedeemReward_answer :: "mutation_response \<Rightarrow> admin_state \<Rightarrow> admin_state" where
  "handleRedeemReward_answer r s =
     (case r of
        Updated c \<Rightarrow>
          (fetchCustomers
             (emit (Toast ''Redeemed reward'')
                (s\<lparr>selectedCustomer := Some c, showRedeemDialog := False\<rparr>)))
            \<lparr>isLoading := False\<rparr>
      | Failure d \<Rightarrow>
          (emit (Toast (case or_null (case d of Some m \<Rightarrow> m | None \<Rightarrow> []) of
                          Some m \<Rightarrow> m
                        | None \<Rightarrow> ''Failed to redeem reward'')) s)
            \<lparr>isLoading := False\<rparr>)"

text \<open>
  \<open>filteredCustomers\<close>: \<^verbatim>\<open>c.phone?.includes(...)\<close> is \<open>undefined\<close>, hence falsy, when the
  phone is \<open>null\<close>, and likewise for the email.
\<close>

definition matchesQuery :: "string \<Rightarrow> customer \<Rightarrow> bool" where
  "matchesQuery q c =
     (includes_str (toLowerCase (name c)) (toLowerCase q) \<or>
      (case phone c of None \<Rightarrow> False | Some p \<Rightarrow> includes_str p q) \<or>
      (case email c of None \<Rightarrow> False | Some e \<Rightarrow> includes_str (toLowerCase e) (toLowerCase q)))"

definition filteredCustomers :: "admin_state \<Rightarrow> customer list" where
  "filteredCustomers s = filter (matchesQuery (searchQuery s)) (customers s)"

text \<open>
  The line under the amount field: \<open>This will add N punch(es)\<close> with
  \<^verbatim>\<open>N = Math.floor(parseFloat(transactionAmount) / 10)\<close> when the text is not empty and
  parses to at least 10, the hint \<open>$10 = 1 punch\<close> otherwise.
\<close>

definition floor_div :: "jsnum \<Rightarrow> rat \<Rightarrow> jsnum" where
  "floor_div x k = (case x of NaN \<Rightarrow> NaN | Num a \<Rightarrow> Num (of_int \<lfloor>a / k\<rfloor>))"

datatype punch_hint = WillAdd jsnum | TenDollarsOnePunch

definition punch_hint :: "string \<Rightarrow> punch_hint" where
  "punch_hint txt =
     (if txt \<noteq> [] \<and> js_ge (parseFloat txt) 10 then WillAdd (floor_div (parseFloat txt) 10)
      else TenDollarsOnePunch)"

text \<open>The \<open>disabled\<close> attributes of the confirm button and of the three redeem buttons.\<close>

definition confirm_disabled :: "admin_state \<Rightarrow> bool" where
  "confirm_disabled s =
     (isLoading s \<or> transactionAmount s = [] \<or> js_lt (parseFloat (transactionAmount s)) 10)"

definition redeem_disabled :: "int \<Rightarrow> admin_state \<Rightarrow> bool" where
  "redeem_disabled t s =
     ((case selectedCustomer s of None \<Rightarrow> False | Some c \<Rightarrow> punches c < t) \<or> isLoading s)"

text \<open>
  What can happen to the mounted panel: a click or a keystroke on an element that is
  rendered, or the answer to a request. While \<open>isAuthenticated\<close> is false the component
  returns the PIN screen, so only the PIN pad is there; the dashboard, with its search
  bar, customer rows, buttons and dialogs, is rendered only when \<open>isAuthenticated\<close> is
  true. An event on an element that is not rendered, or on a disabled button, leaves the
  state as it is. A login answer needs a login request that is not yet answered; the
  other answers are taken at any time, which allows more runs than a server can cause.
\<close>

datatype event =
    ClickPinDigit string
  | ClickPinDelete
  | ClickPinSubmit
  | LoginResponse login_response
  | CustomersResponse "customer list option"
  | TypeSearch string
  | SubmitSearch
  | LookupResponse "customer option option"
  | ClickCustomerRow customer
  | ClickAddTransaction
  | TypeAmount string
  | ClickConfirmAddPunch
  | AddPunchResponse mutation_response
  | ClickRedeem
  | ClickRedeemTier int
  | RedeemResponse mutation_response
  | SetAddPunchDialog bool
  | SetRedeemDialog bool
  | ClickLogout

fun pending_logins :: "obs list \<Rightarrow> int" where
  "pending_logins [] = 0"
| "pending_logins (Issued (LoginReq p) # t) = pending_logins t + 1"
| "pending_logins (LoginAnswer r # t) = pending_logins t - 1"
| "pending_logins (x # t) = pending_logins t"

text \<open>
  The logout button: \<open>setIsAuthenticated(false)\<close>, \<open>setPin("")\<close> and \<open>navigate("/")\<close>, which
  unmounts the panel; it is mounted again with the initial state of its hooks. An answer
  that is still pending then is taken by the new panel, where React would drop it: again
  more runs than there are.
\<close>

definition logout :: "admin_state \<Rightarrow> admin_state" where
  "logout s = emit LoggedOut (initial_state\<lparr>trace := trace s\<rparr>)"

definition fire :: "admin_state \<Rightarrow> event \<Rightarrow> admin_state" where
  "fire s e =
     (case e of
        ClickPinDigit d \<Rightarrow> if \<not> isAuthenticated s then handlePinInput d s else s
      | ClickPinDelete \<Rightarrow> if \<not> isAuthenticated s then handlePinDelete s else s
      | ClickPinSubmit \<Rightarrow> if \<not> isAuthenticated s then handlePinSubmit s else s
      | LoginResponse r \<Rightarrow>
          if 0 < pending_logins (trace s) then handlePinSubmit_answer r s else s
      | CustomersResponse r \<Rightarrow> fetchCustomers_answer r s
      | TypeSearch q \<Rightarrow> if isAuthenticated s then s\<lparr>searchQuery := q\<rparr> else s
      | SubmitSearch \<Rightarrow> if isAuthenticated s then handleSearch s else s
      | LookupResponse r \<Rightarrow> handleSearch_answer r s
      | ClickCustomerRow c \<Rightarrow>
          if isAuthenticated s \<and> c \<in> set (filteredCustomers s)
            then s\<lparr>selectedCustomer := Some c\<rparr> else s
      | ClickAddTransaction \<Rightarrow>
          if isAuthenticated s \<and> selectedCustomer s \<noteq> None
            then s\<lparr>showAddPunchDialog := True\<rparr> else s
      | TypeAmount txt \<Rightarrow>
          if isAuthenticated s \<and> showAddPunchDialog s then s\<lparr>transactionAmount := txt\<rparr>
          else s
      | ClickConfirmAddPunch \<Rightarrow>
          if isAuthenticated s \<and> showAddPunchDialog s \<and> \<not> confirm_disabled s
            then handleAddPunch s else s
      | AddPunchResponse r \<Rightarrow> handleAddPunch_answer r s
      | ClickRedeem \<Rightarrow>
          if isAuthenticated s \<and>
             (case selectedCustomer s of None \<Rightarrow> False | Some c \<Rightarrow> 10 \<le> punches c)
            then s\<lparr>showRedeemDialog := True\<rparr> else s
      | ClickRedeemTier t \<Rightarrow>
          if isAuthenticated s \<and> showRedeemDialog s \<and> t \<in> set [10, 15, 20] \<and>
             \<not> redeem_disabled t s
            then handleRedeemReward t s else s
      | RedeemResponse r \<Rightarrow> handleRedeemReward_answer r s
      | SetAddPunchDialog b \<Rightarrow>
          if isAuthenticated s \<and> showAddPunchDialog s then s\<lparr>showAddPunchDialog := b\<rparr>
          else s
      | SetRedeemDialog b \<Rightarrow>
          if isAuthenticated s \<and> showRedeemDialog s then s\<lparr>showRedeemDialog := b\<rparr> else s
      | ClickLogout \<Rightarrow> if isAuthenticated s then logout s else s)"

definition run :: "event list \<Rightarrow> admin_state" where
  "run evs = foldl fire initial_state evs"

text \<open>
  The check of a trace: a login request carries a PIN of four characters, a login answer
  answers a pending request, and an add-punch or redeem request is sent only after a
  login answer of success with no logout since. \<open>gate\<close> steps through the trace with
  that flag and the number of pending login requests, \<open>None\<close> once the check has failed.
\<close>

definition is_mutation :: "request \<Rightarrow> bool" where
  "is_mutation r =
     (case r of AddPunchReq c a \<Rightarrow> True | RedeemRewardReq c t \<Rightarrow> True | _ \<Rightarrow> False)"

definition gate :: "(bool \<times> int) option \<Rightarrow> obs \<Rightarrow> (bool \<times> int) option" where
  "gate g x =
     (case g of
        None \<Rightarrow> None
      | Some (a, n) \<Rightarrow>
          (case x of
             Issued r \<Rightarrow>
               (case r of
                  LoginReq p \<Rightarrow> if length p = 4 then Some (a, n + 1) else None
                | AddPunchReq c m \<Rightarrow> if a then Some (a, n) else None
                | RedeemRewardReq c t \<Rightarrow> if a then Some (a, n) else None
                | _ \<Rightarrow> Some (a, n))
           | LoginAnswer r \<Rightarrow> if 0 < n then Some (a \<or> r = LoginSuccess, n - 1) else None
           | Toast m \<Rightarrow> Some (a, n)
           | LoggedOut \<Rightarrow> Some (False, n)))"

definition authorized :: "obs list \<Rightarrow> bool" where
  "authorized t = (foldl gate (Some (False, 0)) t \<noteq> None)"

text \<open>
  The invariant of the panel: the check of its trace has not failed, and has arrived at
  the panel's own \<open>isAuthenticated\<close> and at the number of its pending login requests.
\<close>

definition gated :: "admin_state \<Rightarrow> bool" where
  "gated s =
     (foldl gate (Some (False, 0)) (trace s) = Some (isAuthenticated s, pending_logins (trace s)))"

section \<open>The punch ledger behind the API\<close>

text \<open>
  The pages call \<^verbatim>\<open>/api/customers/signup\<close>, \<^verbatim>\<open>/api/admin/add-punch\<close> and
  \<^verbatim>\<open>/api/admin/redeem-reward\<close>, and read \<open>available_rewards\<close> and \<open>next_reward\<close> from
  \<^verbatim>\<open>/api/customers/:id\<close>. The server that answers them is not among the sources. The
  definitions of this section model it from the specification.
\<close>

text \<open>
  Modelled from the spec: the failures named in section 7. The server's source is
  missing.
\<close>

datatype error =
    InvalidInput | Conflict | NotFound | InvalidAmount | InvalidTier
  | InsufficientPunches | StoreUnavailable

text \<open>
  Modelled from the spec: the Transaction record of section 3 and its two kinds. The
  server's source is missing. \<open>tx_id\<close> is the position in the log; the time stamp
  \<open>created_at\<close> is left out.
\<close>

datatype tx_kind = accrual | redemption

record transaction =
  tx_id :: nat
  customer_id :: nat
  kind :: tx_kind
  amount :: rat
  punches_delta :: int
  reward_label :: "string option"

text \<open>
  Modelled from the spec: the Ledger Store of section 2, customer records and an
  append-only transaction log. The server's source is missing.
\<close>

record store =
  directory :: "customer list"
  ledger :: "transaction list"

definition empty_store :: store where
  "empty_store = \<lparr>directory = [], ledger = []\<rparr>"

text \<open>
  Modelled from the spec: the store is keyed by customer id. \<open>find_customer\<close> reads the
  record with an id and \<open>put_customer\<close> writes a record back under its id. The server's
  source is missing.
\<close>

definition find_customer :: "store \<Rightarrow> nat \<Rightarrow> customer option" where
  "find_customer st cid = find (\<lambda>c. c_id c = cid) (directory st)"

definition put_customer :: "customer \<Rightarrow> customer list \<Rightarrow> customer list" where
  "put_customer c' cs = map (\<lambda>c. if c_id c = c_id c' then c' else c) cs"

text \<open>
  Modelled from the spec: a phone or email is empty or absent; a phone or email given at
  signup already belongs to a customer (the email compared case-insensitively). The
  server's source is missing.
\<close>

definition absent :: "string option \<Rightarrow> bool" where
  "absent x = (case x of None \<Rightarrow> True | Some v \<Rightarrow> v = [])"

definition conflicts :: "string option \<Rightarrow> string option \<Rightarrow> customer \<Rightarrow> bool" where
  "conflicts ph em c =
     ((\<not> absent ph \<and> phone c = ph) \<or>
      (\<not> absent em \<and> map_option toLowerCase (email c) = map_option toLowerCase em))"

text \<open>
  Modelled from the spec: \<open>signup(name, phone?, email?)\<close> of section 4.1, \<open>InvalidInput\<close>
  if the name is empty or both phone and email are empty or absent, \<open>Conflict\<close> if the
  phone or the email (case-insensitive) belongs to another customer, else a new customer
  with no punches and nothing spent. The server's source is missing.
\<close>

definition signup ::
  "store \<Rightarrow> string \<Rightarrow> string option \<Rightarrow> string option \<Rightarrow> error + customer \<times> store" where
  "signup st nm ph em =
     (if nm = [] \<or> (absent ph \<and> absent em) then Inl InvalidInput
      else if list_ex (conflicts ph em) (directory st) then Inl Conflict
      else
        (let c = \<lparr>c_id = length (directory st), name = nm, phone = ph, email = em,
                  punches = 0, total_spent = 0\<rparr>
         in Inr (c, st\<lparr>directory := directory st @ [c]\<rparr>)))"

text \<open>
  Modelled from the spec: \<open>add_punch(customer_id, amount)\<close> of section 4.2. The amount
  must be at least 10.00, else \<open>InvalidAmount\<close>; the customer must exist, else
  \<open>NotFound\<close>; \<open>punches_added = floor(amount / 10)\<close> is added to \<open>punches\<close>, the amount to
  \<open>total_spent\<close>, and an accrual transaction is appended. It returns the updated customer
  and \<open>punches_added\<close>. The server's source is missing.
\<close>

definition add_punch :: "store \<Rightarrow> nat \<Rightarrow> rat \<Rightarrow> error + (customer \<times> int) \<times> store" where
  "add_punch st cid a =
     (if a < 10 then Inl InvalidAmount
      else
        (case find_customer st cid of
           None \<Rightarrow> Inl NotFound
         | Some c \<Rightarrow>
             (let punches_added = \<lfloor>a / 10\<rfloor>;
                  c' = c\<lparr>punches := punches c + punches_added,
                         total_spent := total_spent c + a\<rparr>;
                  tx = \<lparr>tx_id = length (ledger st), customer_id = cid, kind = accrual,
                        amount = a, punches_delta = punches_added, reward_label = None\<rparr>
              in Inr ((c', punches_added),
                      st\<lparr>directory := put_customer c' (directory st),
                         ledger := ledger st @ [tx]\<rparr>))))"

text \<open>
  Modelled from the spec: the tier's discount description, as in \<open>15% Off\<close>. The server's
  source is missing.
\<close>

definition discount_label :: "tier \<Rightarrow> string" where
  "discount_label t =
     (let d = nat (discount_percent t)
      in [''0123456789'' ! ((d div 10) mod 10), ''0123456789'' ! (d mod 10)] @ ''% Off'')"

text \<open>
  Modelled from the spec: \<open>redeem(customer_id, tier_threshold)\<close> of section 4.4. The
  threshold must be a configured tier, else \<open>InvalidTier\<close>; the customer must exist, else
  \<open>NotFound\<close>; the customer's punches must reach the threshold, else
  \<open>InsufficientPunches\<close>; the threshold is taken off \<open>punches\<close>, \<open>total_spent\<close> stays, and a
  redemption transaction with the tier's label is appended. It returns the updated
  customer and the label. The server's source is missing.
\<close>

definition redeem :: "store \<Rightarrow> nat \<Rightarrow> int \<Rightarrow> error + (customer \<times> string) \<times> store" where
  "redeem st cid t =
     (case find (\<lambda>r. threshold r = t) tiers of
        None \<Rightarrow> Inl InvalidTier
      | Some r \<Rightarrow>
          (case find_customer st cid of
             None \<Rightarrow> Inl NotFound
           | Some c \<Rightarrow>
               if punches c < t then Inl InsufficientPunches
               else
                 (let c' = c\<lparr>punches := punches c - t\<rparr>;
                      tx = \<lparr>tx_id = length (ledger st), customer_id = cid, kind = redemption,
                            amount = 0, punches_delta = - t,
                            reward_label = Some (discount_label r)\<rparr>
                  in Inr ((c', discount_label r),
                          st\<lparr>directory := put_customer c' (directory st),
                             ledger := ledger st @ [tx]\<rparr>))))"

text \<open>
  Modelled from the spec: \<open>eligible_tiers(punches)\<close> of section 4.3, the tiers whose
  threshold is at most \<open>punches\<close>, in the order of the configuration, each tagged
  \<open>ready\<close>. The server's source is missing.
\<close>

datatype tag = ready | locked

definition eligible_tiers :: "int \<Rightarrow> (tier \<times> tag) list" where
  "eligible_tiers p = map (\<lambda>t. (t, ready)) (filter (\<lambda>t. threshold t \<le> p) tiers)"

text \<open>
  Modelled from the spec: \<open>next_reward(punches)\<close> of section 4.3, the sentinel if
  \<open>punches\<close> is at least 20, else the first tier in ascending order whose threshold
  exceeds \<open>punches\<close>, with \<open>punches_needed = threshold - punches\<close>. The server's source is
  missing.
\<close>

definition next_reward :: "int \<Rightarrow> next_reward" where
  "next_reward p =
     (if 20 \<le> p then MaxReached
      else
        (case find (\<lambda>t. p < threshold t) tiers of
           None \<Rightarrow> MaxReached
         | Some t \<Rightarrow> NextTier t (threshold t - p)))"

text \<open>
  Modelled from the spec: a history of the ledger, the operations of sections 4.1, 4.2
  and 4.4 applied in order to the empty store. An operation that fails leaves the store
  as it is. The server's source is missing.
\<close>

datatype operation =
    Signup string "string option" "string option"
  | AddPunch nat rat
  | Redeem nat int

definition apply_op :: "store \<Rightarrow> operation \<Rightarrow> store" where
  "apply_op st x =
     (case x of
        Signup nm ph em \<Rightarrow> (case signup st nm ph em of Inl e \<Rightarrow> st | Inr (c, st') \<Rightarrow> st')
      | AddPunch cid a \<Rightarrow> (case add_punch st cid a of Inl e \<Rightarrow> st | Inr (r, st') \<Rightarrow> st')
      | Redeem cid t \<Rightarrow> (case redeem st cid t of Inl e \<Rightarrow> st | Inr (r, st') \<Rightarrow> st'))"

definition history :: "operation list \<Rightarrow> store" where
  "history ops = foldl apply_op empty_store ops"

text \<open>
  Modelled from the spec: the sum of \<open>punches_delta\<close> over a customer's transactions
  (section 3). The server's source is missing.
\<close>

definition ledger_sum :: "store \<Rightarrow> nat \<Rightarrow> int" where
  "ledger_sum st cid =
     sum_list (map punches_delta (filter (\<lambda>t. customer_id t = cid) (ledger st)))"

text \<open>
  The invariant of the ledger: every customer's punches are the sum of the customer's
  deltas and are not negative, the ids are the positions in the directory, and every
  transaction belongs to a customer of the directory.
\<close>

definition ledger_consistent :: "store \<Rightarrow> bool" where
  "ledger_consistent st =
     ((\<forall>c \<in> set (directory st). punches c = ledger_sum st (c_id c) \<and> 0 \<le> punches c) \<and>
      map c_id (directory st) = [0..<length (directory st)] \<and>
      (\<forall>t \<in> set (ledger st). customer_id t < length (directory st)))"

section \<open>Facts about the built-ins\<close>

lemma includes_str_sublist: "includes_str s q = sublist q s"
  by (induction s) (simp_all add: sublist_Cons_right)

lemma floor_rat_numeral: "\<lfloor>(numeral m :: rat) / numeral n\<rfloor> = numeral m div numeral n"
  using floor_divide_of_int_eq [of "numeral m" "numeral n", where ?'a = rat] by simp

section \<open>Rounding to doubles\<close>

lemma round_half_even_ge: "of_int n \<le> q \<Longrightarrow> n \<le> round_half_even q"
proof -
  assume "of_int n \<le> q"
  then have "n \<le> \<lfloor>q\<rfloor>" by (simp add: le_floor_iff)
  then show ?thesis by (simp add: round_half_even_def Let_def)
qed

lemma exponent2_le:
  assumes "x \<noteq> 0"
  shows "2 powi (exponent2 x) \<le> \<bar>x\<bar>"
proof -
  obtain n d where q: "quotient_of \<bar>x\<bar> = (n, d)"
    by (cases "quotient_of \<bar>x\<bar>")
  then have d: "0 < d" and x: "\<bar>x\<bar> = of_int n / of_int d"
    using quotient_of_denom_pos quotient_of_div by blast+
  from assms have "0 < \<bar>x\<bar>" by simp
  with x have "0 < (of_int n :: rat) / of_int d" by simp
  with d have n: "0 < n" by (simp add: zero_less_divide_iff)
  let ?e = "bitlen n - bitlen d"
  show ?thesis
  proof (cases "2 powi ?e \<le> \<bar>x\<bar>")
    case True
    with q show ?thesis by (simp add: exponent2_def)
  next
    case False
    from bitlen_bounds [OF n] have nb: "(2::int) ^ nat (bitlen n - 1) \<le> n" by simp
    from bitlen_bounds [OF d] have db: "d < (2::int) ^ nat (bitlen d)" by simp
    from n have "bitlen n \<noteq> 0" by (simp add: bitlen_eq_zero_iff)
    with bitlen_nonneg [of n] have bn: "1 \<le> bitlen n" by linarith
    have "(2::rat) powi (?e - 1) = 2 powi (bitlen n - 1) / 2 powi (bitlen d)"
      by (simp add: power_int_diff)
    also have "\<dots> = 2 ^ nat (bitlen n - 1) / 2 ^ nat (bitlen d)"
      using bn bitlen_nonneg [of d] by (simp add: power_int_def)
    also have "\<dots> \<le> of_int n / 2 ^ nat (bitlen d)"
    proof -
      have "(2::rat) ^ nat (bitlen n - 1) \<le> of_int n"
        using nb by (metis of_int_le_iff of_int_numeral of_int_power)
      then show ?thesis by (simp add: divide_right_mono)
    qed
    also have "\<dots> \<le> of_int n / of_int d"
    proof -
      have "of_int d \<le> (2::rat) ^ nat (bitlen d)"
        using db by (metis less_imp_le of_int_le_iff of_int_numeral of_int_power)
      with d n show ?thesis by (simp add: frac_le)
    qed
    finally have "(2::rat) powi (?e - 1) \<le> \<bar>x\<bar>"
      using x by simp
    with False q show ?thesis by (simp add: exponent2_def)
  qed
qed

text \<open>Rounding never goes below a double that the argument has reached.\<close>

lemma round_double_ge:
  assumes c: "c = of_int m * 2 powi k" and m: "0 < m" "m < 2 ^ 53" and k: "- 1074 \<le> k"
    and x: "c \<le> x"
  shows "c \<le> round_double x"
proof -
  have cpos: "0 < c"
    using c m by (simp add: zero_less_power_int)
  with x have xpos: "0 < x" by simp
  define j where "j = max (exponent2 x) (- 1022) - 52"
  define u :: rat where "u = 2 powi j"
  have upos: "0 < u" by (simp add: u_def zero_less_power_int)
  have rd: "round_double x = of_int (round_half_even (x / u)) * u"
    using xpos by (simp add: round_double_def Let_def u_def j_def)
  show ?thesis
  proof (cases "j \<le> k")
    case True
    have "c / u = of_int m * 2 powi (k - j)"
      using c by (simp add: u_def power_int_diff)
    also have "\<dots> = of_int (m * 2 ^ nat (k - j))"
      using True by (simp add: power_int_def)
    finally have cu: "c / u = of_int (m * 2 ^ nat (k - j))" .
    from x upos have "c / u \<le> x / u"
      by (simp add: divide_right_mono)
    with cu have "m * 2 ^ nat (k - j) \<le> round_half_even (x / u)"
      by (simp add: round_half_even_ge)
    then have "of_int (m * 2 ^ nat (k - j)) * u \<le> of_int (round_half_even (x / u)) * u"
      using upos by (simp del: of_int_mult of_int_power)
    with cu upos rd show ?thesis
      by (simp add: field_simps)
  next
    case False
    then have kj: "k + 1 \<le> j" by simp
    with k have e: "max (exponent2 x) (- 1022) = exponent2 x"
      by (auto simp: j_def max_def)
    then have j: "j = exponent2 x - 52" by (simp add: j_def)
    from xpos exponent2_le [of x] have lo: "2 powi (exponent2 x) \<le> x" by simp
    have "(2::rat) powi (exponent2 x) / u = 2 powi 52"
      by (simp add: u_def j power_int_diff)
    moreover from lo upos have "2 powi (exponent2 x) / u \<le> x / u"
      by (simp add: divide_right_mono)
    ultimately have "of_int (2 ^ 52) \<le> x / u" by simp
    then have "2 ^ 52 \<le> round_half_even (x / u)"
      by (rule round_half_even_ge)
    then have "of_int (2 ^ 52) * u \<le> of_int (round_half_even (x / u)) * u"
      using upos by (simp del: of_int_power of_int_numeral)
    moreover have "of_int (2 ^ 52) * u = (2::rat) powi (exponent2 x)"
      by (simp add: u_def j power_int_diff)
    ultimately have big: "2 powi (exponent2 x) \<le> round_double x"
      using rd by simp
    have "c \<le> 2 ^ 53 * 2 powi k"
      using c m by (simp add: zero_less_power_int)
    also have "\<dots> = 2 powi (k + 53)"
      by (simp add: power_int_add)
    also have "\<dots> \<le> 2 powi (exponent2 x)"
      using kj j by (intro power_int_increasing) simp_all
    finally show ?thesis using big by simp
  qed
qed

lemma to_double_ge:
  assumes "c = of_int m * 2 powi k" and "0 < m" and "m < 2 ^ 53" and "- 1074 \<le> k"
    and "c \<le> x"
  shows "dbl_ge (to_double x) c"
proof -
  from assms have r: "c \<le> round_double x"
    by (rule round_double_ge)
  from assms(1,2) have "0 < c"
    by (simp add: zero_less_power_int)
  with r have "\<not> round_double x \<le> - (2 ^ 1024)"
    by (simp add: not_le less_le_trans [of "- (2 ^ 1024)" 0] del: power_numeral)
  with r show ?thesis
    by (simp add: to_double_def dbl_ge_def Let_def del: power_numeral)
qed

lemma to_double_ge_1: "1 \<le> x \<Longrightarrow> dbl_ge (to_double x) 1"
  using to_double_ge [of 1 1 0 x] by simp

lemma to_double_ge_20: "20 \<le> x \<Longrightarrow> dbl_ge (to_double x) 20"
  using to_double_ge [of 20 5 2 x] by simp

lemma to_double_ge_100: "100 \<le> x \<Longrightarrow> dbl_ge (to_double x) 100"
  using to_double_ge [of 100 25 2 x] by simp

lemma to_double_small: "\<bar>round_double x\<bar> \<le> 200 \<Longrightarrow> to_double x = Dbl (round_double x)"
proof -
  assume a: "\<bar>round_double x\<bar> \<le> 200"
  have "(200::rat) < 2 ^ 1024" by simp
  with a show ?thesis
    by (auto simp: to_double_def Let_def simp del: power_numeral)
qed

text \<open>
  The counts up to 20, by evaluation: the count is a double, a twentieth of it rounds to
  at most 1, and the percentage is five times the count, but for 11, where it is one unit
  in the last place above 55.
\<close>

lemma small_counts:
  "list_all (\<lambda>p. round_double (of_int p) = of_int p \<and>
      0 \<le> round_double (of_int p / 20) \<and> round_double (of_int p / 20) \<le> 1 \<and>
      round_double (round_double (of_int p / 20) * 100) =
        (if p = 11 then 55 + 1 / 2 ^ 47 else of_int (5 * p))) [0..20]"
  by code_simp

section \<open>The dashboard's punch card\<close>

lemma dashboard_punches_eq: "dashboard_punches c = to_double (of_int (punches c))"
  by (simp add: dashboard_punches_def Let_def)

lemma small_count:
  assumes "0 \<le> p" and "p \<le> 20"
  shows "to_double (of_int p) = Dbl (of_int p)"
    and "progressPercent (Dbl (of_int p)) =
           Dbl (if p = 11 then 55 + 1 / 2 ^ 47 else of_int (5 * p))"
proof -
  from assms have "p \<in> set [0..20]" by simp
  with small_counts have t: "round_double (of_int p) = of_int p"
      "0 \<le> round_double (of_int p / 20)" "round_double (of_int p / 20) \<le> 1"
      "round_double (round_double (of_int p / 20) * 100) =
        (if p = 11 then 55 + 1 / 2 ^ 47 else of_int (5 * p))"
    unfolding list_all_iff by blast+
  from assms t(1) show a: "to_double (of_int p) = Dbl (of_int p)"
    by (simp add: to_double_small)
  from t(2,3) have b: "to_double (of_int p / 20) = Dbl (round_double (of_int p / 20))"
    by (simp add: to_double_small)
  have small: "(55::rat) + 1 / 2 ^ 47 \<le> 100" by simp
  from assms t(4) small have c: "\<bar>round_double (round_double (of_int p / 20) * 100)\<bar> \<le> 200"
    by (simp split: if_splits)
  then have d: "to_double (round_double (of_int p / 20) * 100) =
      Dbl (round_double (round_double (of_int p / 20) * 100))"
    by (rule to_double_small)
  from assms small show "progressPercent (Dbl (of_int p)) =
           Dbl (if p = 11 then 55 + 1 / 2 ^ 47 else of_int (5 * p))"
    by (simp add: progressPercent_def js_div_def js_mul_def Math_min_def b d t(4))
qed

lemma progress_full:
  assumes "dbl_ge v 20"
  shows "progressPercent v = Dbl 100"
proof -
  from assms have "dbl_ge (js_div v 20) 1"
    by (cases v) (simp_all add: dbl_ge_def js_div_def to_double_ge_1 [unfolded dbl_ge_def])
  then have "dbl_ge (js_mul (js_div v 20) 100) 100"
    by (cases "js_div v 20")
       (simp_all add: dbl_ge_def js_mul_def to_double_ge_100 [unfolded dbl_ge_def])
  then show ?thesis
    by (cases "js_mul (js_div v 20) 100")
       (simp_all add: progressPercent_def dbl_ge_def Math_min_def)
qed

lemma filled_upto:
  "0 \<le> p \<Longrightarrow> length (filter (\<lambda>i. int i < p) [0..<m]) = min (nat p) m"
proof (induction m)
  case 0
  then show ?case by simp
next
  case (Suc m)
  then show ?case by (cases "int m < p") (simp_all add: min_def, linarith+)
qed

lemma length_filled:
  assumes "0 \<le> p"
  shows "length (filter isFilled (punch_grid (Dbl (of_int p)))) = nat (min p 20)"
proof -
  have "length (filter isFilled (punch_grid (Dbl (of_int p)))) =
        length (filter (\<lambda>i. int i < p) [0..<20])"
    by (simp add: punch_grid_def index_lt_def filter_map comp_def of_nat_less_of_int_iff
        del: upt_Suc)
  also have "\<dots> = min (nat p) 20"
    using assms by (rule filled_upto)
  also have "\<dots> = nat (min p 20)"
    using assms by (auto simp: min_def)
  finally show ?thesis .
qed

lemma grid_full:
  assumes "dbl_ge v 20"
  shows "length (filter isFilled (punch_grid v)) = 20"
proof -
  have "\<forall>i \<in> set [0..<20]. index_lt i v"
    using assms by (cases v) (auto simp: dbl_ge_def index_lt_def)
  then have "filter (\<lambda>i. index_lt i v) [0..<20] = [0..<20]"
    by (simp only: filter_True)
  then have "length (filter (\<lambda>i. index_lt i v) [0..<20]) = 20"
    by simp
  then show ?thesis
    by (simp add: punch_grid_def filter_map comp_def del: upt_Suc)
qed

text \<open>
  Claim C10. For every customer with a punch count of 0 or more, also above 20, the
  progress that the dashboard shows is \<^verbatim>\<open>Math.min((punches / 20) * 100, 100)\<close> on the
  count read from the customer, in the doubles of the page. It is a finite number that
  never exceeds 100; it is 100 from 20 punches on; up to 20 punches it is five times the
  count, but at 11 punches, where the doubles give 55 and one unit in the last place
  (the page shows 55.00000000000001); so it is always within \<open>1 / 2 ^ 47\<close> of
  \<open>min (punches / 20 * 100) 100\<close>. The grid has 20 circles, and \<open>min punches 20\<close> of
  them, so at most 20, are filled.
\<close>

theorem C10_progress_clamped:
  "0 \<le> punches c \<Longrightarrow>
     progressPercent (dashboard_punches c) =
       Math_min (js_mul (js_div (dashboard_punches c) 20) 100) 100 \<and>
     dbl_le (progressPercent (dashboard_punches c)) 100 \<and>
     (\<exists>r. progressPercent (dashboard_punches c) = Dbl r \<and>
          \<bar>r - min (of_int (punches c) / 20 * 100) 100\<bar> \<le> 1 / 2 ^ 47) \<and>
     (20 \<le> punches c \<longrightarrow> progressPercent (dashboard_punches c) = Dbl 100) \<and>
     (punches c \<le> 20 \<and> punches c \<noteq> 11 \<longrightarrow>
        progressPercent (dashboard_punches c) = Dbl (of_int (5 * punches c))) \<and>
     (punches c = 11 \<longrightarrow> progressPercent (dashboard_punches c) = Dbl (55 + 1 / 2 ^ 47)) \<and>
     length (punch_grid (dashboard_punches c)) = 20 \<and>
     length (filter isFilled (punch_grid (dashboard_punches c))) = nat (min (punches c) 20) \<and>
     length (filter isFilled (punch_grid (dashboard_punches c))) \<le> 20"
proof -
  assume p: "0 \<le> punches c"
  let ?v = "dashboard_punches c"
  have def: "progressPercent ?v = Math_min (js_mul (js_div ?v 20) 100) 100"
    by (simp add: progressPercent_def)
  have high: "20 \<le> punches c \<longrightarrow> progressPercent ?v = Dbl 100"
  proof
    assume "20 \<le> punches c"
    then have "dbl_ge ?v 20"
      by (simp add: dashboard_punches_eq to_double_ge_20)
    then show "progressPercent ?v = Dbl 100"
      by (rule progress_full)
  qed
  have low: "punches c \<le> 20 \<longrightarrow>
      progressPercent ?v =
        Dbl (if punches c = 11 then 55 + 1 / 2 ^ 47 else of_int (5 * punches c))"
    using p small_count [of "punches c"] by (simp add: dashboard_punches_eq)
  have near: "\<exists>r. progressPercent ?v = Dbl r \<and>
          \<bar>r - min (of_int (punches c) / 20 * 100) 100\<bar> \<le> 1 / 2 ^ 47"
  proof (cases "20 \<le> punches c")
    case True
    with high show ?thesis by (simp add: min_def)
  next
    case False
    with low show ?thesis by (simp add: min_def)
  qed
  have le: "dbl_le (progressPercent ?v) 100"
  proof (cases "20 \<le> punches c")
    case True
    with high show ?thesis by (simp add: dbl_le_def)
  next
    case False
    have "(55::rat) + 1 / 2 ^ 47 \<le> 100" by simp
    with False low show ?thesis by (simp add: dbl_le_def)
  qed
  have len: "length (punch_grid ?v) = 20"
    by (simp add: punch_grid_def del: upt_Suc)
  have filled: "length (filter isFilled (punch_grid ?v)) = nat (min (punches c) 20)"
  proof (cases "20 \<le> punches c")
    case True
    then have "dbl_ge ?v 20"
      by (simp add: dashboard_punches_eq to_double_ge_20)
    then have "length (filter isFilled (punch_grid ?v)) = 20"
      by (rule grid_full)
    with True show ?thesis by (simp add: min_def)
  next
    case False
    with p have "?v = Dbl (of_int (punches c))"
      by (simp add: dashboard_punches_eq small_count(1))
    with p show ?thesis by (simp add: length_filled)
  qed
  have "nat (min (punches c) 20) \<le> 20"
    by (auto simp: min_def)
  with def le near high low len filled show ?thesis
    by simp
qed

theorem C10_progress_clamped_witness:
  "progressPercent
     (dashboard_punches \<lparr>c_id = 0, name = ''Jane'', phone = Some ''555-1111'', email = None,
        punches = 25, total_spent = 250\<rparr>) = Dbl 100 \<and>
   length (filter isFilled
     (punch_grid (dashboard_punches \<lparr>c_id = 0, name = ''Jane'', phone = Some ''555-1111'',
        email = None, punches = 25, total_spent = 250\<rparr>))) = 20 \<and>
   progressPercent
     (dashboard_punches \<lparr>c_id = 1, name = ''Bob'', phone = None, email = Some ''bob@shop.com'',
        punches = 11, total_spent = 110\<rparr>) = Dbl (55 + 1 / 2 ^ 47) \<and>
   length (filter isFilled
     (punch_grid (dashboard_punches \<lparr>c_id = 1, name = ''Bob'', phone = None,
        email = Some ''bob@shop.com'', punches = 11, total_spent = 110\<rparr>))) = 11 \<and>
   progressPercent
     (dashboard_punches \<lparr>c_id = 2, name = ''Ann'', phone = None, email = Some ''ann@shop.com'',
        punches = 12, total_spent = 120\<rparr>) = Dbl 60"
  using
    C10_progress_clamped [of "\<lparr>c_id = 0, name = ''Jane'', phone = Some ''555-1111'',
      email = None, punches = 25, total_spent = 250\<rparr>"]
    C10_progress_clamped [of "\<lparr>c_id = 1, name = ''Bob'', phone = None,
      email = Some ''bob@shop.com'', punches = 11, total_spent = 110\<rparr>"]
    C10_progress_clamped [of "\<lparr>c_id = 2, name = ''Ann'', phone = None,
      email = Some ''ann@shop.com'', punches = 12, total_spent = 120\<rparr>"]
  by (simp add: progressPercent_def)

section \<open>The reward policy\<close>

lemma eligible_thresholds:
  "map (threshold \<circ> fst) (eligible_tiers p) = filter (\<lambda>t. t \<le> p) [10, 15, 20]"
  by (simp add: eligible_tiers_def tiers_def)

lemma ready_titles:
  "map (discount_label \<circ> fst) (eligible_tiers p) =
     map card_title (filter card_available (tier_cards p))"
  by (simp add: eligible_tiers_def tiers_def tier_cards_def tier_card_def discount_label_def)

lemma ready_cards:
  "map card_threshold (filter card_available (tier_cards p)) = filter (\<lambda>t. t \<le> p) [10, 15, 20]"
  by (simp add: tier_cards_def tier_card_def)

text \<open>
  Claim C7. For every punch count \<open>p\<close>, \<open>eligible_tiers p\<close> holds exactly the tiers whose
  threshold is at most \<open>p\<close>, each tagged \<open>ready\<close>, in ascending order of threshold (a
  sublist of 10, 15, 20, without repetition); they are the tiers whose card the
  dashboard shows as available, and their labels are the titles of these cards; and from
  15 punches on there are at least two of them.
\<close>

theorem C7_eligible_tiers:
  "map (threshold \<circ> fst) (eligible_tiers p) = filter (\<lambda>t. t \<le> p) [10, 15, 20] \<and>
   set (map fst (eligible_tiers p)) = {t \<in> set tiers. threshold t \<le> p} \<and>
   (\<forall>e \<in> set (eligible_tiers p). snd e = ready) \<and>
   sorted (map (threshold \<circ> fst) (eligible_tiers p)) \<and>
   distinct (map (threshold \<circ> fst) (eligible_tiers p)) \<and>
   map (threshold \<circ> fst) (eligible_tiers p) =
     map card_threshold (filter card_available (tier_cards p)) \<and>
   map (discount_label \<circ> fst) (eligible_tiers p) =
     map card_title (filter card_available (tier_cards p)) \<and>
   (15 \<le> p \<longrightarrow> 2 \<le> length (eligible_tiers p))"
proof -
  have a: "map (threshold \<circ> fst) (eligible_tiers p) = filter (\<lambda>t. t \<le> p) [10, 15, 20]"
    by (rule eligible_thresholds)
  have b: "set (map fst (eligible_tiers p)) = {t \<in> set tiers. threshold t \<le> p}"
    by (auto simp: eligible_tiers_def)
  have c: "\<forall>e \<in> set (eligible_tiers p). snd e = ready"
    by (auto simp: eligible_tiers_def)
  have d: "sorted (map (threshold \<circ> fst) (eligible_tiers p))"
    unfolding a by (simp add: sorted_wrt_filter)
  have e: "distinct (map (threshold \<circ> fst) (eligible_tiers p))"
    unfolding a by simp
  have f: "map (threshold \<circ> fst) (eligible_tiers p) =
     map card_threshold (filter card_available (tier_cards p))"
    by (simp only: a ready_cards)
  have g: "15 \<le> p \<longrightarrow> 2 \<le> length (eligible_tiers p)"
    by (simp add: eligible_tiers_def tiers_def)
  from a b c d e f g ready_titles [of p] show ?thesis by blast
qed

theorem C7_eligible_tiers_witness:
  "map fst (eligible_tiers 17) =
     [\<lparr>threshold = 10, discount_percent = 15\<rparr>, \<lparr>threshold = 15, discount_percent = 20\<rparr>] \<and>
   map snd (eligible_tiers 17) = [ready, ready] \<and>
   map card_threshold (filter card_available (tier_cards 17)) = [10, 15] \<and>
   2 \<le> length (eligible_tiers 17)"
  using C7_eligible_tiers [of 17] by (simp add: eligible_tiers_def tiers_def)

lemma find_tier:
  "find (\<lambda>t. p < threshold t) tiers =
     (if p < 10 then Some \<lparr>threshold = 10, discount_percent = 15\<rparr>
      else if p < 15 then Some \<lparr>threshold = 15, discount_percent = 20\<rparr>
      else if p < 20 then Some \<lparr>threshold = 20, discount_percent = 25\<rparr>
      else None)"
  by (simp add: tiers_def)

text \<open>
  Claim C5. For every punch count \<open>p < 20\<close>, \<open>next_reward p\<close> is a tier of the
  configuration whose threshold exceeds \<open>p\<close>, no tier above \<open>p\<close> has a lower threshold,
  and \<open>punches_needed\<close> is the threshold minus \<open>p\<close>; the dashboard then shows that number
  with the tier's discount, and the same number on the tier's card. For every \<open>p \<ge> 20\<close>
  it is the sentinel, and the dashboard shows that the maximum is reached. At 12 punches
  it is the tier of 15 punches with 3 punches needed.
\<close>

theorem C5_next_reward:
  "(p < 20 \<longrightarrow>
      (\<exists>t. next_reward p = NextTier t (threshold t - p) \<and> t \<in> set tiers \<and> p < threshold t \<and>
           (\<forall>u \<in> set tiers. p < threshold u \<longrightarrow> threshold t \<le> threshold u) \<and>
           next_reward_info (Some (next_reward p)) =
             NextRewardInfo (threshold t - p) (discount_percent t) \<and>
           card_badge (tier_card (threshold t) title p) = More (threshold t - p))) \<and>
   (20 \<le> p \<longrightarrow>
      next_reward p = MaxReached \<and> next_reward_info (Some (next_reward p)) = MaxRewardInfo) \<and>
   next_reward 12 = NextTier \<lparr>threshold = 15, discount_percent = 20\<rparr> 3"
proof -
  have low: "p < 20 \<longrightarrow>
      (\<exists>t. next_reward p = NextTier t (threshold t - p) \<and> t \<in> set tiers \<and> p < threshold t \<and>
           (\<forall>u \<in> set tiers. p < threshold u \<longrightarrow> threshold t \<le> threshold u) \<and>
           next_reward_info (Some (next_reward p)) =
             NextRewardInfo (threshold t - p) (discount_percent t) \<and>
           card_badge (tier_card (threshold t) title p) = More (threshold t - p))"
  proof
    assume p: "p < 20"
    consider "p < 10" | "10 \<le> p" "p < 15" | "15 \<le> p" "p < 20"
      using p by linarith
    then show "\<exists>t. next_reward p = NextTier t (threshold t - p) \<and> t \<in> set tiers \<and> p < threshold t \<and>
           (\<forall>u \<in> set tiers. p < threshold u \<longrightarrow> threshold t \<le> threshold u) \<and>
           next_reward_info (Some (next_reward p)) =
             NextRewardInfo (threshold t - p) (discount_percent t) \<and>
           card_badge (tier_card (threshold t) title p) = More (threshold t - p)"
    proof cases
      case 1
      then show ?thesis
        by (intro exI [of _ "\<lparr>threshold = 10, discount_percent = 15\<rparr>"])
           (simp add: next_reward_def find_tier next_reward_info_def tier_card_def, simp add: tiers_def)
    next
      case 2
      then show ?thesis
        by (intro exI [of _ "\<lparr>threshold = 15, discount_percent = 20\<rparr>"])
           (simp add: next_reward_def find_tier next_reward_info_def tier_card_def, simp add: tiers_def)
    next
      case 3
      then show ?thesis
        by (intro exI [of _ "\<lparr>threshold = 20, discount_percent = 25\<rparr>"])
           (simp add: next_reward_def find_tier next_reward_info_def tier_card_def, simp add: tiers_def)
    qed
  qed
  have high: "20 \<le> p \<longrightarrow>
      next_reward p = MaxReached \<and> next_reward_info (Some (next_reward p)) = MaxRewardInfo"
    by (simp add: next_reward_def next_reward_info_def)
  have ex: "next_reward 12 = NextTier \<lparr>threshold = 15, discount_percent = 20\<rparr> 3"
    by (simp add: next_reward_def find_tier)
  from low high ex show ?thesis by blast
qed

theorem C5_next_reward_witness:
  "next_reward 12 = NextTier \<lparr>threshold = 15, discount_percent = 20\<rparr> 3 \<and>
   next_reward 7 = NextTier \<lparr>threshold = 10, discount_percent = 15\<rparr> 3 \<and>
   next_reward 19 = NextTier \<lparr>threshold = 20, discount_percent = 25\<rparr> 1 \<and>
   next_reward 20 = MaxReached \<and> next_reward 23 = MaxReached \<and>
   next_reward_info (Some (next_reward 12)) = NextRewardInfo 3 20 \<and>
   next_reward_info (Some (next_reward 23)) = MaxRewardInfo \<and>
   card_badge (tier_card 15 ''20% Off'' 12) = More 3 \<and>
   map fst (eligible_tiers 12) = [\<lparr>threshold = 10, discount_percent = 15\<rparr>]"
  using C5_next_reward [of 12 "''20% Off''"] C5_next_reward [of 23 "''25% Off''"]
  by (simp add: next_reward_def find_tier eligible_tiers_def tiers_def next_reward_info_def
      tier_card_def)

section \<open>The admin customer list\<close>

lemma matchesQuery_sublist:
  "matchesQuery q c =
     (sublist (toLowerCase q) (toLowerCase (name c)) \<or>
      (\<exists>p. phone c = Some p \<and> sublist q p) \<or>
      (\<exists>e. email c = Some e \<and> sublist (toLowerCase q) (toLowerCase e)))"
  by (simp add: matchesQuery_def includes_str_sublist split: option.splits)

lemma matchesQuery_empty: "matchesQuery [] c"
  by (simp add: matchesQuery_def includes_str_sublist toLowerCase_def)

text \<open>
  Claim C9. In the admin customer list, a customer is shown exactly when it is among the
  stored customers and the query, lower-cased, occurs in the lower-cased name, or the
  query occurs in the phone, if there is one, or the query, lower-cased, occurs in the
  lower-cased email, if there is one. With the empty query every stored customer is
  shown. The list shown keeps the order of the stored one.
\<close>

theorem C9_filteredCustomers:
  "(c \<in> set (filteredCustomers s)) =
     (c \<in> set (customers s) \<and>
      (sublist (toLowerCase (searchQuery s)) (toLowerCase (name c)) \<or>
       (\<exists>p. phone c = Some p \<and> sublist (searchQuery s) p) \<or>
       (\<exists>e. email c = Some e \<and> sublist (toLowerCase (searchQuery s)) (toLowerCase e)))) \<and>
   (searchQuery s = [] \<longrightarrow> filteredCustomers s = customers s) \<and>
   subseq (filteredCustomers s) (customers s)"
proof -
  have a: "(c \<in> set (filteredCustomers s)) =
     (c \<in> set (customers s) \<and>
      (sublist (toLowerCase (searchQuery s)) (toLowerCase (name c)) \<or>
       (\<exists>p. phone c = Some p \<and> sublist (searchQuery s) p) \<or>
       (\<exists>e. email c = Some e \<and> sublist (toLowerCase (searchQuery s)) (toLowerCase e))))"
    by (simp add: filteredCustomers_def matchesQuery_sublist)
  have b: "searchQuery s = [] \<longrightarrow> filteredCustomers s = customers s"
    by (simp add: filteredCustomers_def matchesQuery_empty)
  have c: "subseq (filteredCustomers s) (customers s)"
    by (simp add: filteredCustomers_def)
  from a b c show ?thesis by blast
qed

theorem C9_filteredCustomers_witness:
  "filteredCustomers
     (initial_state
        \<lparr>customers :=
           [\<lparr>c_id = 0, name = ''Jane Doe'', phone = Some ''555-1111'', email = None,
             punches = 12, total_spent = 120\<rparr>,
            \<lparr>c_id = 1, name = ''Bob'', phone = None, email = Some ''Bob@Shop.com'',
             punches = 0, total_spent = 0\<rparr>],
         searchQuery := ''JANE''\<rparr>) =
     [\<lparr>c_id = 0, name = ''Jane Doe'', phone = Some ''555-1111'', email = None,
       punches = 12, total_spent = 120\<rparr>] \<and>
   filteredCustomers
     (initial_state
        \<lparr>customers :=
           [\<lparr>c_id = 0, name = ''Jane Doe'', phone = Some ''555-1111'', email = None,
             punches = 12, total_spent = 120\<rparr>,
            \<lparr>c_id = 1, name = ''Bob'', phone = None, email = Some ''Bob@Shop.com'',
             punches = 0, total_spent = 0\<rparr>],
         searchQuery := ''''\<rparr>) =
     [\<lparr>c_id = 0, name = ''Jane Doe'', phone = Some ''555-1111'', email = None,
       punches = 12, total_spent = 120\<rparr>,
      \<lparr>c_id = 1, name = ''Bob'', phone = None, email = Some ''Bob@Shop.com'',
       punches = 0, total_spent = 0\<rparr>]"
proof -
  have e: "filteredCustomers
     (initial_state
        \<lparr>customers :=
           [\<lparr>c_id = 0, name = ''Jane Doe'', phone = Some ''555-1111'', email = None,
             punches = 12, total_spent = 120\<rparr>,
            \<lparr>c_id = 1, name = ''Bob'', phone = None, email = Some ''Bob@Shop.com'',
             punches = 0, total_spent = 0\<rparr>],
         searchQuery := ''JANE''\<rparr>) =
     [\<lparr>c_id = 0, name = ''Jane Doe'', phone = Some ''555-1111'', email = None,
       punches = 12, total_spent = 120\<rparr>]"
    by (simp add: filteredCustomers_def matchesQuery_def initial_state_def toLowerCase_def
        toLowerChar_def)
  show ?thesis
    using e
      C9_filteredCustomers [of "\<lparr>c_id = 1, name = ''Bob'', phone = None,
          email = Some ''Bob@Shop.com'', punches = 0, total_spent = 0\<rparr>" "initial_state
        \<lparr>customers :=
           [\<lparr>c_id = 0, name = ''Jane Doe'', phone = Some ''555-1111'', email = None,
             punches = 12, total_spent = 120\<rparr>,
            \<lparr>c_id = 1, name = ''Bob'', phone = None, email = Some ''Bob@Shop.com'',
             punches = 0, total_spent = 0\<rparr>],
         searchQuery := ''''\<rparr>"]
    by (simp add: initial_state_def)
qed

section \<open>The signup form\<close>

text \<open>
  Claim C8. \<open>handleSignup\<close> stops with an error toast, and posts nothing, exactly when
  the trimmed name is empty or the trimmed phone and the trimmed email are both empty:
  the toast asks for the name in the first case and for a phone number or email in the
  second. Otherwise it posts the trimmed name with the trimmed phone and email, \<open>null\<close>
  for an empty one. The form's phone and email are strings, so an absent one is the empty
  string.
\<close>

theorem C8_handleSignup:
  "(signup_posts (handleSignup d) = []) =
     (trim (su_name d) = [] \<or> (trim (su_phone d) = [] \<and> trim (su_email d) = [])) \<and>
   ((\<exists>m. handleSignup d = SignupToastError m) =
     (trim (su_name d) = [] \<or> (trim (su_phone d) = [] \<and> trim (su_email d) = []))) \<and>
   (trim (su_name d) = [] \<longrightarrow> handleSignup d = SignupToastError ''Please enter your name'') \<and>
   (trim (su_name d) \<noteq> [] \<and> trim (su_phone d) = [] \<and> trim (su_email d) = [] \<longrightarrow>
      handleSignup d = SignupToastError ''Please enter phone number or email'') \<and>
   (trim (su_name d) \<noteq> [] \<and> (trim (su_phone d) \<noteq> [] \<or> trim (su_email d) \<noteq> []) \<longrightarrow>
      handleSignup d =
        SignupPost \<lparr>body_name = trim (su_name d), body_phone = or_null (trim (su_phone d)),
                    body_email = or_null (trim (su_email d))\<rparr>)"
proof -
  have none: "(signup_posts (handleSignup d) = []) =
     (trim (su_name d) = [] \<or> (trim (su_phone d) = [] \<and> trim (su_email d) = []))"
    by (simp add: handleSignup_def signup_posts_def)
  have toast: "(\<exists>m. handleSignup d = SignupToastError m) =
     (trim (su_name d) = [] \<or> (trim (su_phone d) = [] \<and> trim (su_email d) = []))"
    by (simp add: handleSignup_def)
  have no_name: "trim (su_name d) = [] \<longrightarrow>
      handleSignup d = SignupToastError ''Please enter your name''"
    by (simp add: handleSignup_def)
  have no_contact: "trim (su_name d) \<noteq> [] \<and> trim (su_phone d) = [] \<and> trim (su_email d) = [] \<longrightarrow>
      handleSignup d = SignupToastError ''Please enter phone number or email''"
    by (simp add: handleSignup_def)
  have post: "trim (su_name d) \<noteq> [] \<and> (trim (su_phone d) \<noteq> [] \<or> trim (su_email d) \<noteq> []) \<longrightarrow>
      handleSignup d =
        SignupPost \<lparr>body_name = trim (su_name d), body_phone = or_null (trim (su_phone d)),
                    body_email = or_null (trim (su_email d))\<rparr>"
    by (auto simp: handleSignup_def)
  from none toast no_name no_contact post show ?thesis
    by blast
qed

theorem C8_handleSignup_witness:
  "handleSignup \<lparr>su_name = ''  '', su_phone = ''555-1111'', su_email = ''''\<rparr> =
     SignupToastError ''Please enter your name'' \<and>
   handleSignup \<lparr>su_name = ''Jane'', su_phone = '' '', su_email = ''''\<rparr> =
     SignupToastError ''Please enter phone number or email'' \<and>
   signup_posts (handleSignup \<lparr>su_name = ''Jane'', su_phone = '' '', su_email = ''''\<rparr>) = [] \<and>
   handleSignup \<lparr>su_name = '' Jane '', su_phone = ''555-1111'', su_email = ''''\<rparr> =
     SignupPost \<lparr>body_name = ''Jane'', body_phone = Some ''555-1111'', body_email = None\<rparr>"
  using C8_handleSignup [of "\<lparr>su_name = ''  '', su_phone = ''555-1111'', su_email = ''''\<rparr>"]
    C8_handleSignup [of "\<lparr>su_name = ''Jane'', su_phone = '' '', su_email = ''''\<rparr>"]
    C8_handleSignup [of "\<lparr>su_name = '' Jane '', su_phone = ''555-1111'', su_email = ''''\<rparr>"]
  by (simp add: trim_def trimStart_def isWhiteSpace_def or_null_def signup_posts_def)

text \<open>The server's signup, as modelled, on what the form posts.\<close>

lemma signup_InvalidInput_iff:
  "(signup st nm ph em = Inl InvalidInput) = (nm = [] \<or> (absent ph \<and> absent em))"
  by (simp add: signup_def Let_def)

lemma posted_body_valid:
  "handleSignup d = SignupPost b \<Longrightarrow>
     signup st (body_name b) (body_phone b) (body_email b) \<noteq> Inl InvalidInput"
  by (auto simp: handleSignup_def signup_InvalidInput_iff absent_def or_null_def
      split: if_splits)

section \<open>Adding punches in the admin panel\<close>

lemma trace_emit: "trace (emit x s) = trace s @ [x]"
  by (simp add: emit_def)

lemma emit_Issued_neq_Toast: "emit (Issued r) s' \<noteq> emit (Toast m) s"
proof
  assume "emit (Issued r) s' = emit (Toast m) s"
  then have "trace (emit (Issued r) s') = trace (emit (Toast m) s)"
    by simp
  then show False
    by (simp add: trace_emit)
qed

lemma parseFloat_9_99: "parseFloat ''9.99'' = Num (999 / 100)"
  by (simp add: parseFloat_def signOf_def trimStart_def isWhiteSpace_def isDigit_def
      digitsVal_def exponentOf_def scale10_def)

lemma parseFloat_10_00: "parseFloat ''10.00'' = Num 10"
  by (simp add: parseFloat_def signOf_def trimStart_def isWhiteSpace_def isDigit_def
      digitsVal_def exponentOf_def scale10_def)

lemma handleAddPunch_rejects_iff:
  assumes "selectedCustomer s = Some c" and "transactionAmount s \<noteq> []"
  shows "(handleAddPunch s = emit (Toast ''Amount must be at least $10'') s) =
         (isNaN (parseFloat (transactionAmount s)) \<or> js_lt (parseFloat (transactionAmount s)) 10)"
  using assms
  by (cases "parseFloat (transactionAmount s)")
     (simp_all add: handleAddPunch_def isNaN_def js_lt_def emit_Issued_neq_Toast)

lemma handleAddPunch_accepts:
  assumes "selectedCustomer s = Some c" and "transactionAmount s \<noteq> []"
    and "parseFloat (transactionAmount s) = Num a" and "10 \<le> a"
  shows "handleAddPunch s = emit (Issued (AddPunchReq (c_id c) a)) (s\<lparr>isLoading := True\<rparr>)"
  using assms by (simp add: handleAddPunch_def)

lemma handleAddPunch_posts_iff:
  "(\<exists>r. trace (handleAddPunch s) = trace s @ [Issued r]) =
     (selectedCustomer s \<noteq> None \<and> transactionAmount s \<noteq> [] \<and>
      js_ge (parseFloat (transactionAmount s)) 10)"
  by (auto simp: handleAddPunch_def trace_emit js_ge_def split: option.splits jsnum.splits)

lemma confirm_disabled_below:
  "js_lt (parseFloat (transactionAmount s)) 10 \<Longrightarrow> fire s ClickConfirmAddPunch = s"
  by (simp add: fire_def confirm_disabled_def)

text \<open>
  Claim C4. \<open>handleAddPunch\<close> sends a request exactly when a customer is selected, the
  amount text is not empty and the parsed amount is a number of at least 10. With a
  customer selected and a non-empty amount text, it stops with the toast
  \<open>Amount must be at least $10\<close>, sending nothing, exactly when the parsed amount is
  \<open>NaN\<close> or below 10; an amount of at least 10 is posted to \<^verbatim>\<open>/admin/add-punch\<close> as it
  is. Below 10 the confirm button is disabled as well. The
  text \<open>9.99\<close> is refused; the text \<open>10.00\<close> is posted as 10, and the dialog announces one
  punch for it.
\<close>

theorem C4_handleAddPunch:
  "((\<exists>r. trace (handleAddPunch s) = trace s @ [Issued r]) =
      (selectedCustomer s \<noteq> None \<and> transactionAmount s \<noteq> [] \<and>
       js_ge (parseFloat (transactionAmount s)) 10)) \<and>
   (selectedCustomer s = Some c \<and> transactionAmount s \<noteq> [] \<longrightarrow>
      (handleAddPunch s = emit (Toast ''Amount must be at least $10'') s) =
        (isNaN (parseFloat (transactionAmount s)) \<or>
         js_lt (parseFloat (transactionAmount s)) 10)) \<and>
   (selectedCustomer s = Some c \<and> transactionAmount s \<noteq> [] \<and>
    parseFloat (transactionAmount s) = Num a \<longrightarrow>
      (if a < 10 then handleAddPunch s = emit (Toast ''Amount must be at least $10'') s
       else handleAddPunch s =
              emit (Issued (AddPunchReq (c_id c) a)) (s\<lparr>isLoading := True\<rparr>))) \<and>
   (js_lt (parseFloat (transactionAmount s)) 10 \<longrightarrow> fire s ClickConfirmAddPunch = s) \<and>
   (selectedCustomer s = Some c \<and> transactionAmount s = ''9.99'' \<longrightarrow>
      handleAddPunch s = emit (Toast ''Amount must be at least $10'') s) \<and>
   (selectedCustomer s = Some c \<and> transactionAmount s = ''10.00'' \<longrightarrow>
      handleAddPunch s = emit (Issued (AddPunchReq (c_id c) 10)) (s\<lparr>isLoading := True\<rparr>) \<and>
      punch_hint (transactionAmount s) = WillAdd (Num 1))"
proof -
  have a: "selectedCustomer s = Some c \<and> transactionAmount s \<noteq> [] \<longrightarrow>
      (handleAddPunch s = emit (Toast ''Amount must be at least $10'') s) =
        (isNaN (parseFloat (transactionAmount s)) \<or>
         js_lt (parseFloat (transactionAmount s)) 10)"
    using handleAddPunch_rejects_iff by blast
  have b: "selectedCustomer s = Some c \<and> transactionAmount s \<noteq> [] \<and>
    parseFloat (transactionAmount s) = Num a \<longrightarrow>
      (if a < 10 then handleAddPunch s = emit (Toast ''Amount must be at least $10'') s
       else handleAddPunch s =
              emit (Issued (AddPunchReq (c_id c) a)) (s\<lparr>isLoading := True\<rparr>))"
    by (simp add: handleAddPunch_def)
  have c: "js_lt (parseFloat (transactionAmount s)) 10 \<longrightarrow> fire s ClickConfirmAddPunch = s"
    using confirm_disabled_below by blast
  have d: "selectedCustomer s = Some c \<and> transactionAmount s = ''9.99'' \<longrightarrow>
      handleAddPunch s = emit (Toast ''Amount must be at least $10'') s"
    by (simp add: handleAddPunch_def parseFloat_9_99)
  have e: "selectedCustomer s = Some c \<and> transactionAmount s = ''10.00'' \<longrightarrow>
      handleAddPunch s = emit (Issued (AddPunchReq (c_id c) 10)) (s\<lparr>isLoading := True\<rparr>) \<and>
      punch_hint (transactionAmount s) = WillAdd (Num 1)"
    by (simp add: handleAddPunch_def punch_hint_def parseFloat_10_00 js_ge_def floor_div_def)
  from a b c d e handleAddPunch_posts_iff [of s] show ?thesis by blast
qed

theorem C4_handleAddPunch_witness:
  "trace (handleAddPunch
     (initial_state
        \<lparr>selectedCustomer :=
           Some \<lparr>c_id = 7, name = ''Jane'', phone = Some ''555-1111'', email = None,
                 punches = 0, total_spent = 0\<rparr>,
         transactionAmount := ''9.99''\<rparr>)) = [Toast ''Amount must be at least $10''] \<and>
   trace (handleAddPunch
     (initial_state
        \<lparr>selectedCustomer :=
           Some \<lparr>c_id = 7, name = ''Jane'', phone = Some ''555-1111'', email = None,
                 punches = 0, total_spent = 0\<rparr>,
         transactionAmount := ''10.00''\<rparr>)) = [Issued (AddPunchReq 7 10)] \<and>
   punch_hint ''10.00'' = WillAdd (Num 1) \<and>
   punch_hint ''9.99'' = TenDollarsOnePunch"
proof -
  have h: "punch_hint ''9.99'' = TenDollarsOnePunch"
    by (simp add: punch_hint_def parseFloat_9_99 js_ge_def)
  show ?thesis
    using h
      C4_handleAddPunch [of "initial_state
        \<lparr>selectedCustomer :=
           Some \<lparr>c_id = 7, name = ''Jane'', phone = Some ''555-1111'', email = None,
                 punches = 0, total_spent = 0\<rparr>,
         transactionAmount := ''9.99''\<rparr>"
        "\<lparr>c_id = 7, name = ''Jane'', phone = Some ''555-1111'', email = None,
                 punches = 0, total_spent = 0\<rparr>" "999 / 100"]
      C4_handleAddPunch [of "initial_state
        \<lparr>selectedCustomer :=
           Some \<lparr>c_id = 7, name = ''Jane'', phone = Some ''555-1111'', email = None,
                 punches = 0, total_spent = 0\<rparr>,
         transactionAmount := ''10.00''\<rparr>"
        "\<lparr>c_id = 7, name = ''Jane'', phone = Some ''555-1111'', email = None,
                 punches = 0, total_spent = 0\<rparr>" 10]
    by (simp add: trace_emit initial_state_def)
qed

section \<open>The PIN gate of the admin panel\<close>

lemma pending_logins_append:
  "pending_logins (t @ u) = pending_logins t + pending_logins u"
  by (induction t rule: pending_logins.induct) simp_all

lemma foldl_gate_None: "foldl gate None t = None"
  by (induction t) (simp_all add: gate_def)

lemma gated_initial: "gated initial_state"
  by (simp add: gated_def initial_state_def)

lemma gated_emit_Toast: "gated s \<Longrightarrow> gated (emit (Toast m) s)"
  by (simp add: gated_def emit_def pending_logins_append gate_def)

lemma gated_fetchCustomers: "gated s \<Longrightarrow> gated (fetchCustomers s)"
  by (simp add: gated_def fetchCustomers_def emit_def pending_logins_append gate_def)

lemma gated_isLoading: "gated (s\<lparr>isLoading := b\<rparr>) = gated s"
  by (simp add: gated_def)

lemma gated_fire: "gated s \<Longrightarrow> gated (fire s e)"
proof (cases e)
  case (ClickPinDigit d)
  then show "gated s \<Longrightarrow> gated (fire s e)"
    by (simp add: fire_def handlePinInput_def gated_def)
next
  case ClickPinDelete
  then show "gated s \<Longrightarrow> gated (fire s e)"
    by (simp add: fire_def handlePinDelete_def gated_def)
next
  case ClickPinSubmit
  then show "gated s \<Longrightarrow> gated (fire s e)"
    by (simp add: fire_def handlePinSubmit_def gated_def emit_def pending_logins_append gate_def)
next
  case (LoginResponse r)
  then show "gated s \<Longrightarrow> gated (fire s e)"
    by (cases r)
       (simp_all add: fire_def handlePinSubmit_answer_def fetchCustomers_def gated_def emit_def
          pending_logins_append gate_def Let_def)
next
  case (CustomersResponse r)
  then show "gated s \<Longrightarrow> gated (fire s e)"
    by (cases r)
       (simp_all add: fire_def fetchCustomers_answer_def gated_def emit_def
          pending_logins_append gate_def)
next
  case (TypeSearch q)
  then show "gated s \<Longrightarrow> gated (fire s e)"
    by (simp add: fire_def gated_def)
next
  case SubmitSearch
  then show "gated s \<Longrightarrow> gated (fire s e)"
    by (simp add: fire_def handleSearch_def fetchCustomers_def gated_def emit_def
          pending_logins_append gate_def)
next
  case (LookupResponse r)
  then show "gated s \<Longrightarrow> gated (fire s e)"
    by (simp add: fire_def handleSearch_answer_def gated_def emit_def
          pending_logins_append gate_def split: option.splits)
next
  case (ClickCustomerRow c)
  then show "gated s \<Longrightarrow> gated (fire s e)"
    by (simp add: fire_def gated_def)
next
  case ClickAddTransaction
  then show "gated s \<Longrightarrow> gated (fire s e)"
    by (simp add: fire_def gated_def)
next
  case (TypeAmount v)
  then show "gated s \<Longrightarrow> gated (fire s e)"
    by (simp add: fire_def gated_def)
next
  case ClickConfirmAddPunch
  then show "gated s \<Longrightarrow> gated (fire s e)"
    by (simp add: fire_def handleAddPunch_def gated_def emit_def
          pending_logins_append gate_def split: option.splits jsnum.splits)
next
  case (AddPunchResponse r)
  then show "gated s \<Longrightarrow> gated (fire s e)"
    by (simp add: fire_def handleAddPunch_answer_def fetchCustomers_def gated_def emit_def
          pending_logins_append gate_def split: mutation_response.splits)
next
  case ClickRedeem
  then show "gated s \<Longrightarrow> gated (fire s e)"
    by (simp add: fire_def gated_def)
next
  case (ClickRedeemTier t)
  then show "gated s \<Longrightarrow> gated (fire s e)"
    by (simp add: fire_def handleRedeemReward_def gated_def emit_def
          pending_logins_append gate_def split: option.splits)
next
  case (RedeemResponse r)
  then show "gated s \<Longrightarrow> gated (fire s e)"
    by (simp add: fire_def handleRedeemReward_answer_def fetchCustomers_def gated_def emit_def
          pending_logins_append gate_def split: mutation_response.splits)
next
  case (SetAddPunchDialog b)
  then show "gated s \<Longrightarrow> gated (fire s e)"
    by (simp add: fire_def gated_def)
next
  case (SetRedeemDialog b)
  then show "gated s \<Longrightarrow> gated (fire s e)"
    by (simp add: fire_def gated_def)
next
  case ClickLogout
  then show "gated s \<Longrightarrow> gated (fire s e)"
    by (simp add: fire_def logout_def initial_state_def gated_def emit_def
          pending_logins_append gate_def)
qed

lemma gated_run: "gated (run evs)"
proof (induction evs rule: rev_induct)
  case Nil
  show ?case by (simp add: run_def gated_initial)
next
  case (snoc e evs)
  then show ?case by (simp add: run_def gated_fire)
qed

lemma gate_Some:
  "gate (Some (a, n)) x = Some (a', n') \<Longrightarrow>
     (a' \<longrightarrow> a \<or> x = LoginAnswer LoginSuccess) \<and>
     (\<forall>r. x = Issued r \<and> is_mutation r \<longrightarrow> a)"
  by (auto simp: gate_def is_mutation_def split: obs.splits request.splits if_splits)

lemma mutation_after_login:
  "foldl gate (Some (a, n)) t \<noteq> None \<Longrightarrow> Issued r \<in> set t \<Longrightarrow> is_mutation r \<Longrightarrow>
     a \<or> LoginAnswer LoginSuccess \<in> set t"
proof (induction t arbitrary: a n)
  case Nil
  then show ?case by simp
next
  case (Cons x t)
  from Cons.prems(1) obtain a' n' where g: "gate (Some (a, n)) x = Some (a', n')"
    by (cases "gate (Some (a, n)) x") (auto simp: foldl_gate_None)
  with Cons.prems(1) have rest: "foldl gate (Some (a', n')) t \<noteq> None"
    by simp
  show ?case
  proof (cases "x = Issued r")
    case True
    with g Cons.prems(3) show ?thesis
      using gate_Some by blast
  next
    case False
    with Cons.prems(2) have "Issued r \<in> set t" by simp
    with Cons.IH [OF rest] Cons.prems(3) have "a' \<or> LoginAnswer LoginSuccess \<in> set t"
      by blast
    with g show ?thesis
      using gate_Some by fastforce
  qed
qed

text \<open>
  The check is not empty: a request to add punches with no login before it fails it. And
  a run of the panel: the PIN is typed and accepted, a customer is picked, 25 dollars are
  entered and confirmed.
\<close>

lemma unauthorized_trace: "\<not> authorized [Issued (AddPunchReq 0 25)]"
  by (simp add: authorized_def gate_def)

lemma example_run:
  "trace (run [ClickPinDigit ''1'', ClickPinDigit ''2'', ClickPinDigit ''3'', ClickPinDigit ''4'',
      ClickPinSubmit, LoginResponse LoginSuccess,
      CustomersResponse (Some [\<lparr>c_id = 0, name = ''Jane'', phone = Some ''555-1111'',
        email = None, punches = 0, total_spent = 0\<rparr>]),
      ClickCustomerRow \<lparr>c_id = 0, name = ''Jane'', phone = Some ''555-1111'',
        email = None, punches = 0, total_spent = 0\<rparr>,
      ClickAddTransaction, TypeAmount ''25'', ClickConfirmAddPunch]) =
   [Issued (LoginReq ''1234''), LoginAnswer LoginSuccess, Toast ''Welcome, Admin!'',
    Issued FetchCustomersReq, Issued (AddPunchReq 0 25)]"
  by code_simp

text \<open>
  Claim C6. Whatever happens to the admin panel from its initial state, its trace passes
  the check: every request to add punches or to redeem a reward is sent after a login
  request with a PIN of four characters was answered with success, with no logout in
  between; in particular the answer of success is in the trace before the request is.
  While the panel is not authenticated, the buttons that lead to these requests do
  nothing, because the component renders the PIN screen only.
\<close>

theorem C6_mutations_gated:
  "authorized (trace (run evs)) \<and>
   (\<forall>r. Issued r \<in> set (trace (run evs)) \<and> is_mutation r \<longrightarrow>
      LoginAnswer LoginSuccess \<in> set (trace (run evs))) \<and>
   (\<not> isAuthenticated s \<longrightarrow>
      fire s ClickConfirmAddPunch = s \<and> fire s (ClickRedeemTier t) = s \<and>
      fire s ClickAddTransaction = s \<and> fire s ClickRedeem = s)"
proof -
  have a: "authorized (trace (run evs))"
    using gated_run [of evs] by (simp add: authorized_def gated_def)
  have b: "\<forall>r. Issued r \<in> set (trace (run evs)) \<and> is_mutation r \<longrightarrow>
      LoginAnswer LoginSuccess \<in> set (trace (run evs))"
    using a mutation_after_login [of False 0 "trace (run evs)"]
    by (auto simp: authorized_def)
  have c: "\<not> isAuthenticated s \<longrightarrow>
      fire s ClickConfirmAddPunch = s \<and> fire s (ClickRedeemTier t) = s \<and>
      fire s ClickAddTransaction = s \<and> fire s ClickRedeem = s"
    by (simp add: fire_def)
  from a b c show ?thesis by blast
qed

theorem C6_mutations_gated_witness:
  "authorized
     (trace (run [ClickPinDigit ''1'', ClickPinDigit ''2'', ClickPinDigit ''3'',
        ClickPinDigit ''4'', ClickPinSubmit, LoginResponse LoginSuccess,
        CustomersResponse (Some [\<lparr>c_id = 0, name = ''Jane'', phone = Some ''555-1111'',
          email = None, punches = 0, total_spent = 0\<rparr>]),
        ClickCustomerRow \<lparr>c_id = 0, name = ''Jane'', phone = Some ''555-1111'',
          email = None, punches = 0, total_spent = 0\<rparr>,
        ClickAddTransaction, TypeAmount ''25'', ClickConfirmAddPunch])) \<and>
   trace (run [ClickPinDigit ''1'', ClickPinDigit ''2'', ClickPinDigit ''3'',
        ClickPinDigit ''4'', ClickPinSubmit, LoginResponse LoginSuccess,
        CustomersResponse (Some [\<lparr>c_id = 0, name = ''Jane'', phone = Some ''555-1111'',
          email = None, punches = 0, total_spent = 0\<rparr>]),
        ClickCustomerRow \<lparr>c_id = 0, name = ''Jane'', phone = Some ''555-1111'',
          email = None, punches = 0, total_spent = 0\<rparr>,
        ClickAddTransaction, TypeAmount ''25'', ClickConfirmAddPunch]) =
     [Issued (LoginReq ''1234''), LoginAnswer LoginSuccess, Toast ''Welcome, Admin!'',
      Issued FetchCustomersReq, Issued (AddPunchReq 0 25)] \<and>
   fire initial_state ClickConfirmAddPunch = initial_state \<and>
   fire initial_state (ClickRedeemTier 10) = initial_state"
  using example_run
    C6_mutations_gated [of "[ClickPinDigit ''1'', ClickPinDigit ''2'', ClickPinDigit ''3'',
        ClickPinDigit ''4'', ClickPinSubmit, LoginResponse LoginSuccess,
        CustomersResponse (Some [\<lparr>c_id = 0, name = ''Jane'', phone = Some ''555-1111'',
          email = None, punches = 0, total_spent = 0\<rparr>]),
        ClickCustomerRow \<lparr>c_id = 0, name = ''Jane'', phone = Some ''555-1111'',
          email = None, punches = 0, total_spent = 0\<rparr>,
        ClickAddTransaction, TypeAmount ''25'', ClickConfirmAddPunch]" initial_state 10]
  by (simp add: initial_state_def)

section \<open>The ledger\<close>

lemma find_customer_Some:
  "find_customer st cid = Some c \<Longrightarrow> c \<in> set (directory st) \<and> c_id c = cid"
  by (auto simp: find_customer_def find_Some_iff)

lemma find_customer_None:
  "find_customer st cid = None \<Longrightarrow> \<forall>c \<in> set (directory st). c_id c \<noteq> cid"
  by (auto simp: find_customer_def find_None_iff)

lemma set_put_customer:
  "x \<in> set (put_customer c' cs) \<Longrightarrow> x = c' \<or> (x \<in> set cs \<and> c_id x \<noteq> c_id c')"
  by (auto simp: put_customer_def split: if_splits)

lemma ids_put_customer: "map c_id (put_customer c' cs) = map c_id cs"
  by (simp add: put_customer_def)

lemma length_put_customer: "length (put_customer c' cs) = length cs"
  by (simp add: put_customer_def)

lemma find_put_customer:
  "find (\<lambda>c. c_id c = k) cs = Some c \<Longrightarrow> c_id c' = k \<Longrightarrow>
     find (\<lambda>c. c_id c = k) (put_customer c' cs) = Some c'"
  by (induction cs) (auto simp: put_customer_def split: if_splits)

lemma ledger_sum_append:
  "ledger_sum (st\<lparr>directory := d, ledger := ledger st @ [tx]\<rparr>) k =
     ledger_sum st k + (if customer_id tx = k then punches_delta tx else 0)"
  by (simp add: ledger_sum_def)

lemma id_in_range:
  "map c_id cs = [0..<length cs] \<Longrightarrow> c \<in> set cs \<Longrightarrow> c_id c < length cs"
proof -
  assume m: "map c_id cs = [0..<length cs]" and c: "c \<in> set cs"
  from c have "c_id c \<in> set (map c_id cs)" by simp
  with m show ?thesis by simp
qed

lemma no_tx_of_new:
  "\<forall>t \<in> set l. customer_id t < n \<Longrightarrow> sum_list (map punches_delta (filter (\<lambda>t. customer_id t = n) l)) = 0"
  by (induction l) auto

lemma consistent_signup:
  assumes "ledger_consistent st" and "signup st nm ph em = Inr (c, st')"
  shows "ledger_consistent st'"
proof -
  let ?c = "\<lparr>c_id = length (directory st), name = nm, phone = ph, email = em,
                  punches = 0, total_spent = 0\<rparr>"
  from assms(2) have st': "st' = st\<lparr>directory := directory st @ [?c]\<rparr>"
    by (auto simp: signup_def Let_def split: if_splits)
  have new: "ledger_sum st (length (directory st)) = 0"
    using assms(1) by (simp add: ledger_consistent_def ledger_sum_def no_tx_of_new)
  have sums: "\<forall>x \<in> set (directory st'). punches x = ledger_sum st' (c_id x) \<and> 0 \<le> punches x"
    using assms(1) new by (auto simp: st' ledger_consistent_def ledger_sum_def)
  have ids: "map c_id (directory st') = [0..<length (directory st')]"
    using assms(1) by (simp add: st' ledger_consistent_def)
  have txs: "\<forall>t \<in> set (ledger st'). customer_id t < length (directory st')"
    using assms(1) by (auto simp: st' ledger_consistent_def)
  from sums ids txs show ?thesis
    unfolding ledger_consistent_def by blast
qed

lemma consistent_update:
  assumes inv: "ledger_consistent st"
    and found: "find_customer st cid = Some c"
    and c': "c_id c' = cid" "punches c' = punches c + punches_delta tx" "0 \<le> punches c'"
    and tx: "customer_id tx = cid"
  shows "ledger_consistent
           (st\<lparr>directory := put_customer c' (directory st), ledger := ledger st @ [tx]\<rparr>)"
proof -
  let ?st' = "st\<lparr>directory := put_customer c' (directory st), ledger := ledger st @ [tx]\<rparr>"
  from found have c: "c \<in> set (directory st)" "c_id c = cid"
    using find_customer_Some by blast+
  from inv c have pc: "punches c = ledger_sum st cid"
    by (auto simp: ledger_consistent_def)
  from inv c have range: "cid < length (directory st)"
    using id_in_range by (auto simp: ledger_consistent_def)
  have sums: "\<forall>x \<in> set (directory ?st'). punches x = ledger_sum ?st' (c_id x) \<and> 0 \<le> punches x"
  proof
    fix x assume "x \<in> set (directory ?st')"
    then have "x \<in> set (put_customer c' (directory st))" by simp
    then consider "x = c'" | "x \<in> set (directory st)" "c_id x \<noteq> c_id c'"
      using set_put_customer by blast
    then show "punches x = ledger_sum ?st' (c_id x) \<and> 0 \<le> punches x"
    proof cases
      case 1
      then show ?thesis using c' pc tx by (simp add: ledger_sum_append)
    next
      case 2
      then show ?thesis using inv c' tx
        by (auto simp: ledger_sum_append ledger_consistent_def)
    qed
  qed
  have ids: "map c_id (directory ?st') = [0..<length (directory ?st')]"
    using inv by (simp add: ids_put_customer length_put_customer ledger_consistent_def)
  have txs: "\<forall>t \<in> set (ledger ?st'). customer_id t < length (directory ?st')"
    using inv range tx by (auto simp: length_put_customer ledger_consistent_def)
  from sums ids txs show ?thesis
    unfolding ledger_consistent_def by blast
qed

lemma floor_tenth_nonneg: "10 \<le> a \<Longrightarrow> 1 \<le> \<lfloor>(a::rat) / 10\<rfloor>"
  by (simp add: le_floor_iff)

lemma add_punch_Inr:
  "add_punch st cid a = Inr (r, st') \<Longrightarrow>
     \<exists>c. 10 \<le> a \<and> find_customer st cid = Some c \<and>
         r = (c\<lparr>punches := punches c + \<lfloor>a / 10\<rfloor>, total_spent := total_spent c + a\<rparr>,
              \<lfloor>a / 10\<rfloor>) \<and>
         st' = st\<lparr>directory :=
                    put_customer
                      (c\<lparr>punches := punches c + \<lfloor>a / 10\<rfloor>, total_spent := total_spent c + a\<rparr>)
                      (directory st),
                  ledger := ledger st @
                    [\<lparr>tx_id = length (ledger st), customer_id = cid, kind = accrual,
                      amount = a, punches_delta = \<lfloor>a / 10\<rfloor>, reward_label = None\<rparr>]\<rparr>"
  by (auto simp: add_punch_def Let_def split: if_splits option.splits)

lemma redeem_Inr:
  "redeem st cid t = Inr (r, st') \<Longrightarrow>
     \<exists>c tr. find (\<lambda>r. threshold r = t) tiers = Some tr \<and> find_customer st cid = Some c \<and>
         t \<le> punches c \<and>
         r = (c\<lparr>punches := punches c - t\<rparr>, discount_label tr) \<and>
         st' = st\<lparr>directory := put_customer (c\<lparr>punches := punches c - t\<rparr>) (directory st),
                  ledger := ledger st @
                    [\<lparr>tx_id = length (ledger st), customer_id = cid, kind = redemption,
                      amount = 0, punches_delta = - t,
                      reward_label = Some (discount_label tr)\<rparr>]\<rparr>"
  by (auto simp: redeem_def Let_def split: if_splits option.splits)

lemma consistent_add_punch:
  assumes "ledger_consistent st" and "add_punch st cid a = Inr (r, st')"
  shows "ledger_consistent st'"
proof -
  from assms(2) obtain c where a: "10 \<le> a" and f: "find_customer st cid = Some c"
    and st': "st' = st\<lparr>directory :=
                    put_customer
                      (c\<lparr>punches := punches c + \<lfloor>a / 10\<rfloor>, total_spent := total_spent c + a\<rparr>)
                      (directory st),
                  ledger := ledger st @
                    [\<lparr>tx_id = length (ledger st), customer_id = cid, kind = accrual,
                      amount = a, punches_delta = \<lfloor>a / 10\<rfloor>, reward_label = None\<rparr>]\<rparr>"
    using add_punch_Inr by blast
  from f have c: "c \<in> set (directory st)" "c_id c = cid"
    using find_customer_Some by blast+
  from assms(1) c have "0 \<le> punches c"
    by (auto simp: ledger_consistent_def)
  with a floor_tenth_nonneg [of a] have "0 \<le> punches c + \<lfloor>a / 10\<rfloor>"
    by linarith
  with assms(1) f c show ?thesis
    unfolding st' by (intro consistent_update) simp_all
qed

lemma consistent_redeem:
  assumes "ledger_consistent st" and "redeem st cid t = Inr (r, st')"
  shows "ledger_consistent st'"
proof -
  from assms(2) obtain c tr where f: "find_customer st cid = Some c" and t: "t \<le> punches c"
    and st': "st' = st\<lparr>directory := put_customer (c\<lparr>punches := punches c - t\<rparr>) (directory st),
                  ledger := ledger st @
                    [\<lparr>tx_id = length (ledger st), customer_id = cid, kind = redemption,
                      amount = 0, punches_delta = - t,
                      reward_label = Some (discount_label tr)\<rparr>]\<rparr>"
    using redeem_Inr by blast
  from f have c: "c \<in> set (directory st)" "c_id c = cid"
    using find_customer_Some by blast+
  with assms(1) f t show ?thesis
    unfolding st' by (intro consistent_update) simp_all
qed

lemma consistent_apply_op: "ledger_consistent st \<Longrightarrow> ledger_consistent (apply_op st x)"
  by (cases x)
     (auto simp: apply_op_def split: sum.splits
        intro: consistent_signup consistent_add_punch consistent_redeem)

lemma consistent_history: "ledger_consistent (history ops)"
proof (induction ops rule: rev_induct)
  case Nil
  show ?case by (simp add: history_def empty_store_def ledger_consistent_def)
next
  case (snoc x ops)
  then show ?case by (simp add: history_def consistent_apply_op)
qed

lemma ledger_apply_op: "prefix (ledger st) (ledger (apply_op st x))"
  by (cases x)
     (auto simp: apply_op_def signup_def Let_def split: sum.splits if_splits
        dest!: add_punch_Inr redeem_Inr)

lemma ledger_foldl: "prefix (ledger st) (ledger (foldl apply_op st later))"
proof (induction later arbitrary: st)
  case Nil
  show ?case by simp
next
  case (Cons x later)
  have "prefix (ledger st) (ledger (apply_op st x))"
    by (rule ledger_apply_op)
  also have "prefix (ledger (apply_op st x)) (ledger (foldl apply_op (apply_op st x) later))"
    by (rule Cons.IH)
  finally show ?case by simp
qed

text \<open>
  Claim C1. After any sequence of signups, purchases and redemptions from the empty
  store, successful or not, every customer's \<open>punches\<close> is the sum of \<open>punches_delta\<close>
  over the transactions of that customer's id, no two customers share an id, and the log
  of any longer history starts with the log so far: transactions are only appended.
\<close>

theorem C1_ledger_consistent:
  "(\<forall>c \<in> set (directory (history ops)). punches c = ledger_sum (history ops) (c_id c)) \<and>
   distinct (map c_id (directory (history ops))) \<and>
   prefix (ledger (history ops)) (ledger (history (ops @ later)))"
proof -
  have inv: "ledger_consistent (history ops)"
    by (rule consistent_history)
  then have a: "\<forall>c \<in> set (directory (history ops)). punches c = ledger_sum (history ops) (c_id c)"
    by (simp add: ledger_consistent_def)
  from inv have "map c_id (directory (history ops)) = [0..<length (directory (history ops))]"
    by (simp add: ledger_consistent_def)
  then have b: "distinct (map c_id (directory (history ops)))"
    by (metis distinct_upt)
  have c: "prefix (ledger (history ops)) (ledger (history (ops @ later)))"
    by (simp add: history_def ledger_foldl)
  from a b c show ?thesis by blast
qed

lemma history_purchase_redeem:
  "map punches (directory (history [Signup ''Jane'' (Some ''555-1111'') None, AddPunch 0 120, Redeem 0 10])) = [2] \<and>
   map punches_delta (ledger (history [Signup ''Jane'' (Some ''555-1111'') None, AddPunch 0 120, Redeem 0 10])) = [12, - 10] \<and>
   map reward_label (ledger (history [Signup ''Jane'' (Some ''555-1111'') None, AddPunch 0 120, Redeem 0 10])) = [None, Some ''15% Off''] \<and>
   ledger_sum (history [Signup ''Jane'' (Some ''555-1111'') None, AddPunch 0 120, Redeem 0 10]) 0 = 2"
  by (simp add: history_def apply_op_def signup_def add_punch_def redeem_def empty_store_def
      absent_def find_customer_def put_customer_def floor_rat_numeral Let_def tiers_def
      ledger_sum_def discount_label_def)

theorem C1_ledger_consistent_witness:
  "map punches (directory (history [Signup ''Jane'' (Some ''555-1111'') None, AddPunch 0 120, Redeem 0 10])) = [2] \<and>
   ledger_sum (history [Signup ''Jane'' (Some ''555-1111'') None, AddPunch 0 120, Redeem 0 10]) 0 = 2 \<and>
   map punches_delta (ledger (history [Signup ''Jane'' (Some ''555-1111'') None, AddPunch 0 120, Redeem 0 10])) = [12, - 10] \<and>
   distinct (map c_id (directory (history [Signup ''Jane'' (Some ''555-1111'') None, AddPunch 0 120, Redeem 0 10])))"
  using history_purchase_redeem
    C1_ledger_consistent [of "[Signup ''Jane'' (Some ''555-1111'') None, AddPunch 0 120, Redeem 0 10]" "[]"]
  by simp

lemma history_fresh_25:
  "map punches (directory (history [Signup ''Jane'' (Some ''555-1111'') None, AddPunch 0 25])) = [2] \<and>
   redeem (history [Signup ''Jane'' (Some ''555-1111'') None, AddPunch 0 25]) 0 10 = Inl InsufficientPunches \<and>
   map punches (directory (history [Signup ''Jane'' (Some ''555-1111'') None, AddPunch 0 25, Redeem 0 10])) = [2]"
  by (simp add: history_def apply_op_def signup_def add_punch_def redeem_def empty_store_def
      absent_def find_customer_def put_customer_def floor_rat_numeral Let_def tiers_def
      ledger_sum_def discount_label_def)


lemma find_tier_threshold:
  "t \<in> set [10, 15, 20] \<Longrightarrow> \<exists>r. find (\<lambda>r. threshold r = t) tiers = Some r"
  by (auto simp: tiers_def)

lemma redeem_insufficient:
  assumes "t \<in> set [10, 15, 20]" and "find_customer st cid = Some c" and "punches c < t"
  shows "redeem st cid t = Inl InsufficientPunches"
proof -
  from assms(1) obtain r where "find (\<lambda>r. threshold r = t) tiers = Some r"
    using find_tier_threshold by blast
  with assms(2,3) show ?thesis
    by (simp add: redeem_def)
qed

lemma redeem_disabled_click:
  "selectedCustomer s = Some c \<Longrightarrow> punches c < t \<Longrightarrow> fire s (ClickRedeemTier t) = s"
  by (simp add: fire_def redeem_disabled_def)

text \<open>
  Claim C2. For a tier \<open>t\<close> among 10, 15 and 20 and a customer with fewer than \<open>t\<close>
  punches, \<open>redeem\<close> fails with \<open>InsufficientPunches\<close>. A redemption that succeeds found
  at least \<open>t\<close> punches, takes \<open>t\<close> off and leaves \<open>total_spent\<close>, so the punches stay at
  0 or above; in every history every customer's punches are at 0 or above. In the admin
  panel the button of a tier above the selected customer's punches does nothing. A fresh
  customer has 2 punches after a purchase of 25; redeeming the tier of 10 then fails with
  \<open>InsufficientPunches\<close> and the punches stay at 2.
\<close>

theorem C2_redeem_insufficient:
  "(t \<in> set [10, 15, 20] \<and> find_customer st cid = Some c \<and> punches c < t \<longrightarrow>
      redeem st cid t = Inl InsufficientPunches) \<and>
   (redeem st cid t = Inr ((c', l), st') \<longrightarrow>
      (\<exists>c. find_customer st cid = Some c \<and> t \<le> punches c \<and> punches c' = punches c - t \<and>
           total_spent c' = total_spent c) \<and>
      0 \<le> punches c' \<and> find_customer st' cid = Some c') \<and>
   (\<forall>x \<in> set (directory (history ops)). 0 \<le> punches x) \<and>
   (selectedCustomer s = Some c \<and> punches c < t \<longrightarrow> fire s (ClickRedeemTier t) = s) \<and>
   map punches (directory (history [Signup ''Jane'' (Some ''555-1111'') None, AddPunch 0 25])) = [2] \<and>
   redeem (history [Signup ''Jane'' (Some ''555-1111'') None, AddPunch 0 25]) 0 10 =
     Inl InsufficientPunches \<and>
   map punches
     (directory (history [Signup ''Jane'' (Some ''555-1111'') None, AddPunch 0 25, Redeem 0 10])) = [2]"
proof -
  have a: "t \<in> set [10, 15, 20] \<and> find_customer st cid = Some c \<and> punches c < t \<longrightarrow>
      redeem st cid t = Inl InsufficientPunches"
    using redeem_insufficient by blast
  have b: "redeem st cid t = Inr ((c', l), st') \<longrightarrow>
      (\<exists>c. find_customer st cid = Some c \<and> t \<le> punches c \<and> punches c' = punches c - t \<and>
           total_spent c' = total_spent c) \<and>
      0 \<le> punches c' \<and> find_customer st' cid = Some c'"
  proof
    assume "redeem st cid t = Inr ((c', l), st')"
    then obtain c0 tr where f: "find_customer st cid = Some c0" and t: "t \<le> punches c0"
      and c': "c' = c0\<lparr>punches := punches c0 - t\<rparr>"
      and st': "st' = st\<lparr>directory := put_customer (c0\<lparr>punches := punches c0 - t\<rparr>) (directory st),
                  ledger := ledger st @
                    [\<lparr>tx_id = length (ledger st), customer_id = cid, kind = redemption,
                      amount = 0, punches_delta = - t,
                      reward_label = Some (discount_label tr)\<rparr>]\<rparr>"
      using redeem_Inr [of st cid t "(c', l)" st'] by auto
    from f have id: "c_id c0 = cid"
      using find_customer_Some by blast
    from f id have "find_customer st' cid = Some c'"
      unfolding st' c' find_customer_def by (simp add: find_put_customer)
    with f t c' show "(\<exists>c. find_customer st cid = Some c \<and> t \<le> punches c \<and> punches c' = punches c - t \<and>
           total_spent c' = total_spent c) \<and>
      0 \<le> punches c' \<and> find_customer st' cid = Some c'"
      by simp
  qed
  have c: "\<forall>x \<in> set (directory (history ops)). 0 \<le> punches x"
    using consistent_history [of ops] unfolding ledger_consistent_def by blast
  have d: "selectedCustomer s = Some c \<and> punches c < t \<longrightarrow> fire s (ClickRedeemTier t) = s"
    using redeem_disabled_click by blast
  from a b c d history_fresh_25 show ?thesis by blast
qed

theorem C2_redeem_insufficient_witness:
  "redeem (history [Signup ''Jane'' (Some ''555-1111'') None, AddPunch 0 25]) 0 10 =
     Inl InsufficientPunches \<and>
   redeem (history [Signup ''Jane'' (Some ''555-1111'') None, AddPunch 0 25]) 0 15 =
     Inl InsufficientPunches \<and>
   map punches
     (directory (history [Signup ''Jane'' (Some ''555-1111'') None, AddPunch 0 120, Redeem 0 10])) = [2]"
  using history_purchase_redeem
    C2_redeem_insufficient [of 15 "history [Signup ''Jane'' (Some ''555-1111'') None, AddPunch 0 25]" 0
      "\<lparr>c_id = 0, name = ''Jane'', phone = Some ''555-1111'', email = None, punches = 2,
        total_spent = 25\<rparr>"]
  by (simp add: history_def apply_op_def signup_def add_punch_def redeem_def empty_store_def
      absent_def find_customer_def put_customer_def floor_rat_numeral Let_def tiers_def
      ledger_sum_def discount_label_def)

section \<open>Accrual\<close>

lemma add_punch_InvalidAmount_iff: "(add_punch st cid a = Inl InvalidAmount) = (a < 10)"
  by (simp add: add_punch_def Let_def split: option.splits)

text \<open>An amount that the admin panel posts is never refused by the server as invalid.\<close>

lemma posted_amount_valid:
  "trace (handleAddPunch s) = trace s @ [Issued (AddPunchReq cid a)] \<Longrightarrow>
     add_punch st cid a \<noteq> Inl InvalidAmount"
  by (auto simp: handleAddPunch_def trace_emit add_punch_InvalidAmount_iff
      split: option.splits jsnum.splits if_splits)






end
